theory Spec2Isabelle
  imports Complex_Main "HOL-Library.Word"
begin

section \<open>Common data: metrics and errors\<close>

text \<open>
  A Go \<open>float64\<close>. \<open>Finite r\<close> is the double whose exact value is \<open>r\<close>; the model never
  does arithmetic on it, so rounding never comes into play.
\<close>

datatype float64 = Finite real | PosInf | NegInf | NaN

text \<open>\<open>collector.Metric\<close>. A Go map has no order and unique keys, so it is a HOL map; a nil
  map and an empty map both read as \<open>Map.empty\<close>.\<close>

record Metric =
  Name :: string
  Labels :: "string \<rightharpoonup> string"
  Value :: float64
  Type :: string

section \<open>Orchestrator (internal/orchestrator/orchestrator.go)\<close>

text \<open>The fields of \<open>Orchestrator\<close> that label injection reads. The registry, the shipper, the
  interval and the stop channel take no part in it.\<close>

record Orchestrator =
  hostname :: string
  globalLabels :: "string \<rightharpoonup> string"

text \<open>\<open>os.Hostname()\<close> is the environment's answer: \<open>None\<close> when it returns an error.\<close>

definition resolveHostname :: "string option \<Rightarrow> string" where
  "resolveHostname os_hostname = (case os_hostname of None \<Rightarrow> ''unknown'' | Some h \<Rightarrow> h)"

definition NewOrchestrator :: "string option \<Rightarrow> Orchestrator" where
  "NewOrchestrator os_hostname =
     \<lparr>hostname = resolveHostname os_hostname, globalLabels = Map.empty\<rparr>"

definition NewOrchestratorWithLabels :: "string option \<Rightarrow> (string \<rightharpoonup> string) \<Rightarrow> Orchestrator" where
  "NewOrchestratorWithLabels os_hostname gl =
     (let h0 = resolveHostname os_hostname;
          h = (case gl ''hostname'' of
                 Some customHostname \<Rightarrow> if customHostname \<noteq> [] then customHostname else h0
               | None \<Rightarrow> h0)
      in \<lparr>hostname = h, globalLabels = gl\<rparr>)"

text \<open>The inner loop of \<open>addGlobalLabels\<close>: every entry of the global labels whose key is not
  \<open>hostname\<close> is stored into the metric's labels. Keys are unique, so the order of the
  iteration does not show in the result.\<close>

definition overlayLabels :: "(string \<rightharpoonup> string) \<Rightarrow> (string \<rightharpoonup> string) \<Rightarrow> (string \<rightharpoonup> string)" where
  "overlayLabels gl labels =
     (\<lambda>k. if k \<noteq> ''hostname'' then (case gl k of Some v \<Rightarrow> Some v | None \<Rightarrow> labels k)
          else labels k)"

definition labelMetric :: "Orchestrator \<Rightarrow> Metric \<Rightarrow> Metric" where
  "labelMetric orch m =
     m\<lparr>Labels := overlayLabels (globalLabels orch) ((Labels m)(''hostname'' \<mapsto> hostname orch))\<rparr>"

definition addGlobalLabels :: "Orchestrator \<Rightarrow> Metric list \<Rightarrow> Metric list" where
  "addGlobalLabels orch metrics = map (labelMetric orch) metrics"

text \<open>\<open>collectAndShip\<close>. \<open>Registry.CollectAll\<close> and the shipper are not in the sources at hand:
  the pair \<open>collected\<close> is what \<open>CollectAll\<close> returned (metrics and error). The result is the
  batch handed to \<open>Ship\<close>, or \<open>None\<close> when the cycle stops before shipping.\<close>

definition collectAndShip :: "Orchestrator \<Rightarrow> Metric list \<times> string option \<Rightarrow> Metric list option" where
  "collectAndShip orch collected =
     (case snd collected of
        Some err \<Rightarrow> None
      | None \<Rightarrow> Some (addGlobalLabels orch (fst collected)))"

definition exampleOrchestrator :: Orchestrator where
  "exampleOrchestrator = NewOrchestratorWithLabels (Some ''h1'') [''env'' \<mapsto> ''prod'']"

definition exampleBatch :: "Metric list" where
  "exampleBatch =
     [\<lparr>Name = ''a'', Labels = Map.empty, Value = Finite 1, Type = ''gauge''\<rparr>,
      \<lparr>Name = ''b'', Labels = Map.empty, Value = Finite 2, Type = ''gauge''\<rparr>]"

section \<open>Library models: strings, paths, line scanning\<close>

text \<open>
  A Go string is a sequence of bytes, here a \<open>char list\<close>. The functions below follow the
  Go standard library on byte strings; where the library decodes UTF-8, the encodings it
  looks for are written out as byte sequences.
\<close>

datatype 'a go = Panics | Returns 'a

definition isASCII :: "char \<Rightarrow> bool" where
  "isASCII c = ((of_char c :: nat) < 128)"

definition isUpperASCII :: "char \<Rightarrow> bool" where
  "isUpperASCII c = (65 \<le> (of_char c :: nat) \<and> (of_char c :: nat) \<le> 90)"

definition lowerASCII :: "char \<Rightarrow> char" where
  "lowerASCII c = (if isUpperASCII c then char_of ((of_char c :: nat) + 32) else c)"

text \<open>\<open>strings.ToLower\<close>: bytewise on a string of ASCII bytes; otherwise the library maps
  \<open>unicode.ToLower\<close> over the runes, which is the parameter \<open>uni\<close>.\<close>

definition ToLower :: "(string \<Rightarrow> string) \<Rightarrow> string \<Rightarrow> string" where
  "ToLower uni s = (if list_all isASCII s then map lowerASCII s else uni s)"

definition HasPrefix :: "string \<Rightarrow> string \<Rightarrow> bool" where
  "HasPrefix s p = (take (length p) s = p)"

definition HasSuffix :: "string \<Rightarrow> string \<Rightarrow> bool" where
  "HasSuffix s p = (length p \<le> length s \<and> drop (length s - length p) s = p)"

fun Contains :: "string \<Rightarrow> string \<Rightarrow> bool" where
  "Contains [] sub = (sub = [])"
| "Contains (c # cs) sub = (HasPrefix (c # cs) sub \<or> Contains cs sub)"

text \<open>The UTF-8 encodings of the runes for which \<open>unicode.IsSpace\<close> holds: tab, line feed,
  vertical tab, form feed, carriage return, space, U+0085, U+00A0, U+1680, U+2000 to U+200A,
  U+2028, U+2029, U+202F, U+205F, U+3000.\<close>

definition unicode_spaces :: "string list" where
  "unicode_spaces =
     [[CHR 0x09], [CHR 0x0A], [CHR 0x0B], [CHR 0x0C], [CHR 0x0D], [CHR 0x20],
      [CHR 0xC2, CHR 0x85], [CHR 0xC2, CHR 0xA0],
      [CHR 0xE1, CHR 0x9A, CHR 0x80],
      [CHR 0xE2, CHR 0x80, CHR 0x80], [CHR 0xE2, CHR 0x80, CHR 0x81],
      [CHR 0xE2, CHR 0x80, CHR 0x82], [CHR 0xE2, CHR 0x80, CHR 0x83],
      [CHR 0xE2, CHR 0x80, CHR 0x84], [CHR 0xE2, CHR 0x80, CHR 0x85],
      [CHR 0xE2, CHR 0x80, CHR 0x86], [CHR 0xE2, CHR 0x80, CHR 0x87],
      [CHR 0xE2, CHR 0x80, CHR 0x88], [CHR 0xE2, CHR 0x80, CHR 0x89],
      [CHR 0xE2, CHR 0x80, CHR 0x8A],
      [CHR 0xE2, CHR 0x80, CHR 0xA8], [CHR 0xE2, CHR 0x80, CHR 0xA9],
      [CHR 0xE2, CHR 0x80, CHR 0xAF], [CHR 0xE2, CHR 0x81, CHR 0x9F],
      [CHR 0xE3, CHR 0x80, CHR 0x80]]"

text \<open>The length of the first of the sequences \<open>ws\<close> that \<open>s\<close> starts with, 0 when there
  is none.\<close>

fun seq_width :: "string list \<Rightarrow> string \<Rightarrow> nat" where
  "seq_width [] s = 0"
| "seq_width (w # ws) s = (if HasPrefix s w then length w else seq_width ws s)"

fun strip_seqs :: "string list \<Rightarrow> string \<Rightarrow> string" where
  "strip_seqs ws [] = []"
| "strip_seqs ws (c # cs) =
     (let n = seq_width ws (c # cs)
      in if n = 0 then c # cs else strip_seqs ws (drop (n - 1) cs))"

text \<open>\<open>strings.TrimSpace\<close>: leading white space runes go first, then trailing ones (the
  library decodes the last rune, which is matching a reversed encoding on the reversed
  string).\<close>

definition TrimSpace :: "string \<Rightarrow> string" where
  "TrimSpace s =
     rev (strip_seqs (map rev unicode_spaces) (rev (strip_seqs unicode_spaces s)))"

text \<open>\<open>strings.Fields\<close>: the maximal runs of bytes between white space runes.\<close>

fun fields_from :: "string \<Rightarrow> string \<Rightarrow> string list" where
  "fields_from cur [] = (if cur = [] then [] else [rev cur])"
| "fields_from cur (c # cs) =
     (let n = seq_width unicode_spaces (c # cs)
      in if n = 0 then fields_from (c # cur) cs
         else (if cur = [] then [] else [rev cur]) @ fields_from [] (drop (n - 1) cs))"

definition Fields :: "string \<Rightarrow> string list" where
  "Fields s = fields_from [] s"

text \<open>\<open>strings.Trim\<close> with a cutset of ASCII bytes.\<close>

definition Trim :: "string \<Rightarrow> string \<Rightarrow> string" where
  "Trim s cutset =
     rev (dropWhile (\<lambda>c. c \<in> set cutset) (rev (dropWhile (\<lambda>c. c \<in> set cutset) s)))"

text \<open>\<open>filepath.Base\<close> and \<open>filepath.Ext\<close> on a Unix target (separator \<open>/\<close>, no volume
  names).\<close>

definition Base :: "string \<Rightarrow> string" where
  "Base path =
     (if path = [] then ''.''
      else let stripped = rev (dropWhile (\<lambda>c. c = CHR ''/'') (rev path));
               element = rev (takeWhile (\<lambda>c. c \<noteq> CHR ''/'') (rev stripped))
           in if element = [] then ''/'' else element)"

definition Ext :: "string \<Rightarrow> string" where
  "Ext path =
     (case dropWhile (\<lambda>c. c \<noteq> CHR ''.'' \<and> c \<noteq> CHR ''/'') (rev path) of
        [] \<Rightarrow> []
      | c # _ \<Rightarrow>
          if c = CHR ''.''
          then CHR ''.'' # rev (takeWhile (\<lambda>c. c \<noteq> CHR ''.'' \<and> c \<noteq> CHR ''/'') (rev path))
          else [])"

text \<open>\<open>bufio.Scanner\<close> with the default split function \<open>ScanLines\<close>: the text is cut at
  line feeds, a last line without a line feed counts when it is not empty, one trailing
  carriage return is dropped, and the scan stops without a token at the first line of
  \<open>MaxScanTokenSize\<close> = 65536 bytes or more.\<close>

fun split_lines :: "string \<Rightarrow> string \<Rightarrow> string list" where
  "split_lines cur [] = (if cur = [] then [] else [rev cur])"
| "split_lines cur (c # cs) =
     (if c = CHR 0x0A then rev cur # split_lines [] cs else split_lines (c # cur) cs)"

definition dropCR :: "string \<Rightarrow> string" where
  "dropCR l = (if l \<noteq> [] \<and> last l = CHR 0x0D then butlast l else l)"

definition scanLines :: "string \<Rightarrow> string list" where
  "scanLines body = map dropCR (takeWhile (\<lambda>l. length l < 65536) (split_lines [] body))"

section \<open>Library model: regular expressions\<close>

text \<open>
  A compiled \<open>regexp.Regexp\<close> is its syntax tree. Capture groups carry their number (the
  position of their opening parenthesis, from 1); a non-capturing group is its body. The
  matcher is the backtracking search that defines the library's leftmost-first matches:
  it lists the ways a pattern can match at a position in order of preference (the left
  alternative first, the longer repetition first). It works on bytes, which agrees with the
  library on the patterns of this repository: their literals and classes are ASCII, and an
  ASCII byte never lies inside the encoding of another rune.
\<close>

datatype re =
    ReLit char
  | ReCls "(char \<times> char) list"
  | ReNot "(char \<times> char) list"
  | ReSeq re re
  | ReAlt re re
  | ReStar re
  | RePlus re
  | ReOpt re
  | ReGrp nat re
  | ReBol
  | ReEol

text \<open>A matcher state: the offset reached, the text still ahead, the captures so far (the
  latest binding of a group first).\<close>

type_synonym mstate = "nat \<times> string \<times> (nat \<times> string) list"

definition in_ranges :: "char \<Rightarrow> (char \<times> char) list \<Rightarrow> bool" where
  "in_ranges c rs =
     list_ex (\<lambda>(lo, hi). (of_char lo :: nat) \<le> of_char c \<and> (of_char c :: nat) \<le> of_char hi) rs"

definition eat :: "(char \<Rightarrow> bool) \<Rightarrow> mstate \<Rightarrow> mstate list" where
  "eat P st =
     (case st of (off, r, caps) \<Rightarrow>
        (case r of [] \<Rightarrow> [] | x # xs \<Rightarrow> if P x then [(Suc off, xs, caps)] else []))"

text \<open>Greedy repetition of a step \<open>f\<close>: more rounds are preferred to fewer, a round that
  consumes nothing is not repeated, and no more rounds than bytes ahead are possible.\<close>

fun iterate :: "(mstate \<Rightarrow> mstate list) \<Rightarrow> nat \<Rightarrow> mstate \<Rightarrow> mstate list" where
  "iterate f 0 st = [st]"
| "iterate f (Suc n) st =
     concat (map (iterate f n) (filter (\<lambda>st'. fst st < fst st') (f st))) @ [st]"

primrec run :: "re \<Rightarrow> mstate \<Rightarrow> mstate list" where
  "run (ReLit c) st = eat (\<lambda>x. x = c) st"
| "run (ReCls rs) st = eat (\<lambda>x. in_ranges x rs) st"
| "run (ReNot rs) st = eat (\<lambda>x. \<not> in_ranges x rs) st"
| "run (ReSeq a b) st = concat (map (run b) (run a st))"
| "run (ReAlt a b) st = run a st @ run b st"
| "run (ReStar a) st = iterate (run a) (length (fst (snd st))) st"
| "run (RePlus a) st =
     concat (map (\<lambda>st'. iterate (run a) (length (fst (snd st'))) st') (run a st))"
| "run (ReOpt a) st = run a st @ [st]"
| "run (ReGrp n a) st =
     map (\<lambda>st'. (fst st', fst (snd st'),
                 (n, take (fst st' - fst st) (fst (snd st))) # snd (snd st')))
       (run a st)"
| "run ReBol st = (if fst st = 0 then [st] else [])"
| "run ReEol st = (if fst (snd st) = [] then [st] else [])"

primrec NumSubexp :: "re \<Rightarrow> nat" where
  "NumSubexp (ReLit c) = 0"
| "NumSubexp (ReCls rs) = 0"
| "NumSubexp (ReNot rs) = 0"
| "NumSubexp (ReSeq a b) = NumSubexp a + NumSubexp b"
| "NumSubexp (ReAlt a b) = NumSubexp a + NumSubexp b"
| "NumSubexp (ReStar a) = NumSubexp a"
| "NumSubexp (RePlus a) = NumSubexp a"
| "NumSubexp (ReOpt a) = NumSubexp a"
| "NumSubexp (ReGrp n a) = Suc (NumSubexp a)"
| "NumSubexp ReBol = 0"
| "NumSubexp ReEol = 0"

text \<open>The leftmost match at or after offset \<open>off\<close>, where \<open>s\<close> is the text from \<open>off\<close> on:
  the start offset and the preferred final state.\<close>

fun first_match :: "re \<Rightarrow> nat \<Rightarrow> string \<Rightarrow> (nat \<times> mstate) option" where
  "first_match r off [] =
     (case run r (off, [], []) of [] \<Rightarrow> None | st # _ \<Rightarrow> Some (off, st))"
| "first_match r off (c # cs) =
     (case run r (off, c # cs, []) of
        [] \<Rightarrow> first_match r (Suc off) cs
      | st # _ \<Rightarrow> Some (off, st))"

text \<open>The slice a match delivers: the matched text, then the text of each group, empty for
  a group that took no part.\<close>

definition submatches :: "re \<Rightarrow> string \<Rightarrow> nat \<times> mstate \<Rightarrow> string list" where
  "submatches r s m =
     (case m of (b, e, rest, caps) \<Rightarrow>
        take (e - b) (drop b s)
        # map (\<lambda>i. case map_of caps i of None \<Rightarrow> [] | Some t \<Rightarrow> t) [1 ..< Suc (NumSubexp r)])"

text \<open>\<open>MatchString\<close> and \<open>FindStringSubmatch\<close>; the latter's nil is the empty list.\<close>

definition MatchString :: "re \<Rightarrow> string \<Rightarrow> bool" where
  "MatchString r s = (first_match r 0 s \<noteq> None)"

definition FindStringSubmatch :: "re \<Rightarrow> string \<Rightarrow> string list" where
  "FindStringSubmatch r s =
     (case first_match r 0 s of None \<Rightarrow> [] | Some m \<Rightarrow> submatches r s m)"

text \<open>\<open>FindAllStringSubmatch(s, -1)\<close>: successive matches, each search starting where the
  last match ended. An empty match moves the search one byte on and is dropped when it
  lies at the end of the match before it.\<close>

fun find_all :: "nat \<Rightarrow> re \<Rightarrow> string \<Rightarrow> nat \<Rightarrow> nat option \<Rightarrow> string list list" where
  "find_all 0 r s pos prev = []"
| "find_all (Suc fuel) r s pos prev =
     (if length s < pos then []
      else case first_match r pos (drop pos s) of
             None \<Rightarrow> []
           | Some (b, e, rest, caps) \<Rightarrow>
               if e = pos
               then (if prev = Some b then [] else [submatches r s (b, e, rest, caps)])
                    @ find_all fuel r s (Suc pos) (Some e)
               else submatches r s (b, e, rest, caps) # find_all fuel r s e (Some e))"

definition FindAllStringSubmatch :: "re \<Rightarrow> string \<Rightarrow> string list list" where
  "FindAllStringSubmatch r s = find_all (Suc (length s)) r s 0 None"

text \<open>The classes \<open>\s\<close> (tab, line feed, form feed, carriage return, space) and \<open>\d\<close>, and
  the two classes of a metric name.\<close>

definition cls_space :: re where
  "cls_space = ReCls [(CHR 0x09, CHR 0x0A), (CHR 0x0C, CHR 0x0D), (CHR 0x20, CHR 0x20)]"

definition cls_digit :: re where
  "cls_digit = ReCls [(CHR ''0'', CHR ''9'')]"

definition name_head_ranges :: "(char \<times> char) list" where
  "name_head_ranges =
     [(CHR ''a'', CHR ''z''), (CHR ''A'', CHR ''Z''), (CHR ''_'', CHR ''_''), (CHR '':'', CHR '':'')]"

definition name_tail_ranges :: "(char \<times> char) list" where
  "name_tail_ranges =
     [(CHR ''a'', CHR ''z''), (CHR ''A'', CHR ''Z''), (CHR ''0'', CHR ''9''),
      (CHR ''_'', CHR ''_''), (CHR '':'', CHR '':'')]"

section \<open>Library model: strconv.ParseFloat\<close>

text \<open>
  \<open>strconv.ParseFloat(s, 64)\<close>. A string of decimal digits whose value is below \<open>2^53\<close> is
  parsed to exactly that value (it is a double). What the library does with every other
  string (signs, fractions, exponents, hexadecimal, infinities, rounding, errors) is the
  parameter \<open>other\<close>; \<open>None\<close> is its error.
\<close>

definition isDigit :: "char \<Rightarrow> bool" where
  "isDigit c = (48 \<le> (of_char c :: nat) \<and> (of_char c :: nat) \<le> 57)"

definition decimal :: "string \<Rightarrow> nat" where
  "decimal s = foldl (\<lambda>a c. 10 * a + ((of_char c :: nat) - 48)) 0 s"

definition ParseFloat :: "(string \<Rightarrow> float64 option) \<Rightarrow> string \<Rightarrow> float64 option" where
  "ParseFloat other s =
     (if s \<noteq> [] \<and> list_all isDigit s \<and> decimal s < 2 ^ 53
      then Some (Finite (of_nat (decimal s)))
      else other s)"

section \<open>Plugin engine (internal/collector/plugin.go)\<close>

text \<open>The errors the plugin engine and the endpoint scraper construct, one constructor for
  each message; \<open>PluginError name e\<close> is \<open>e\<close> wrapped as \<open>plugin name: e\<close>.\<close>

datatype error =
    NameRequired
  | MetricRequired string
  | MetricGrammar string string
  | MetricTypeInvalid string
  | IntervalNotPositive string
  | CommandArrayRequired string
  | CommandBlacklisted string string
  | HTTPUrlRequired string
  | FilePathRequired string
  | NoSource string
  | ManySources string
  | RegexRequired
  | RegexInvalid
  | ParserModeUnsupported string
  | PluginError string error
  | UnknownSource string
  | CommandSourceMissing
  | CommandFailed
  | HTTPSourceMissing
  | RequestNotCreated
  | RequestFailed
  | UnexpectedStatus nat
  | BodyUnreadable
  | FileSourceMissing
  | ContextDone
  | FileUnreadable
  | NoCaptureGroup string
  | NotAFloat string
  | StatFailed
  | NotADirectory string
  | ReadDirFailed
  | PluginFileUnreadable string
  | PluginFileUnparsable string
  | JSONUnparsable
  | ResponseUnparsable

text \<open>\<open>PluginParser\<close> and \<open>PluginDefinition\<close>. The three source structs have one field each,
  so a pointer to one is an option of that field: \<open>Command\<close> holds the argument vector,
  \<open>HTTP\<close> the URL, \<open>File\<close> the path; nil is \<open>None\<close>. Go's \<open>int\<close> is 64 bits wide on the
  targets the repository builds for.\<close>

record PluginParser =
  Mode :: string
  Regex :: string

record PluginDefinition =
  Name :: string
  Metric :: string
  MetricType :: string
  IntervalSeconds :: "64 word"
  Labels :: "string \<rightharpoonup> string"
  TimeoutSeconds :: "64 word"
  Parser :: PluginParser
  Command :: "string list option"
  HTTP :: "string option"
  File :: "string option"

record parsedParser =
  mode :: string
  regex :: "re option"
  rawRegex :: string
  rawMode :: string

text \<open>A \<open>time.Time\<close> is a count of nanoseconds (\<open>int\<close>), the zero time is 0; a
  \<open>time.Duration\<close> is a signed 64-bit count of nanoseconds.\<close>

record pluginRuntime =
  "def" :: PluginDefinition
  nextRun :: int
  interval :: "64 word"
  timeout :: "64 word"
  parser :: parsedParser
  source :: string
  metricKey :: string

record PluginCollector =
  prefix :: string
  plugins :: "pluginRuntime list"
  pluginsDir :: string
  lastMod :: int

definition pluginSourceCommand :: string where "pluginSourceCommand = ''command''"
definition pluginSourceHTTP :: string where "pluginSourceHTTP = ''http''"
definition pluginSourceFile :: string where "pluginSourceFile = ''file''"
definition pluginParserNumber :: string where "pluginParserNumber = ''number''"
definition pluginParserRegex :: string where "pluginParserRegex = ''regex''"

definition Second :: "64 word" where "Second = 1000000000"

definition defaultPluginTimeout :: "64 word" where
  "defaultPluginTimeout = 10 * Second"

text \<open>\<open>Time.Add\<close> and \<open>Time.After\<close>.\<close>

definition Add :: "int \<Rightarrow> 64 word \<Rightarrow> int" where
  "Add t d = t + sint d"

definition After :: "int \<Rightarrow> int \<Rightarrow> bool" where
  "After t u = (u < t)"

definition Before :: "int \<Rightarrow> int \<Rightarrow> bool" where
  "Before t u = (t < u)"

subsection \<open>The world outside the process\<close>

text \<open>A directory as \<open>os.Stat\<close> and \<open>os.ReadDir\<close> find it. For an entry, \<open>entryModTime\<close> is
  what \<open>entry.Info()\<close> gives and \<open>entryContent\<close> what \<open>os.ReadFile\<close> gives, \<open>None\<close> for an
  error.\<close>

record dirEntry =
  entryName :: string
  entryIsDir :: bool
  entryModTime :: "int option"
  entryContent :: "string option"

datatype dirState =
    DirMissing
  | DirStatError
  | DirNotDirectory
  | DirUnreadable
  | DirEntries "dirEntry list"

text \<open>The answer to an HTTP GET: the request could not be built, the transport failed, or
  a response arrived with its status, its \<open>Content-Type\<close> and its body (\<open>None\<close> when reading
  the body failed).\<close>

datatype httpResult =
    RequestInvalid
  | TransportError
  | Response nat string "string option"

datatype jsonValue = JSONNumber float64 | JSONOther

text \<open>
  Everything the code asks of its libraries and its environment. The calls of one
  collection are told apart by the position of the plugin or endpoint that makes them, so
  that two calls with the same arguments may be answered differently.
\<close>

record sys =
  unicodeToLower :: "string \<Rightarrow> string"
  regexpCompile :: "string \<Rightarrow> re option"
  parseFloatOther :: "string \<Rightarrow> float64 option"
  decodeDefinition :: "string \<Rightarrow> PluginDefinition option"
  decodeDefinitions :: "string \<Rightarrow> PluginDefinition list option"
  decodeObject :: "string \<Rightarrow> (string \<times> jsonValue) list option"
  readDir :: "string \<Rightarrow> dirState"
  buildClock :: "nat \<Rightarrow> int"
  combinedOutput :: "nat \<Rightarrow> string list \<Rightarrow> string option"
  httpGet :: "nat \<Rightarrow> string \<Rightarrow> httpResult"
  readFile :: "nat \<Rightarrow> string \<Rightarrow> string option"
  contextDone :: "nat \<Rightarrow> bool"

subsection \<open>Loading definitions from disk\<close>

definition isSpace :: "char \<Rightarrow> bool" where
  "isSpace c = (c = CHR '' '' \<or> c = CHR 0x0A \<or> c = CHR 0x09 \<or> c = CHR 0x0D)"

definition bytesTrimSpace :: "string \<Rightarrow> string" where
  "bytesTrimSpace b = rev (dropWhile isSpace (rev (dropWhile isSpace b)))"

fun load_entries :: "sys \<Rightarrow> dirEntry list \<Rightarrow> error + PluginDefinition list" where
  "load_entries w [] = Inr []"
| "load_entries w (entry # entries) =
     (if entryIsDir entry then load_entries w entries
      else if Ext (entryName entry) \<noteq> ''.json'' then load_entries w entries
      else (case entryContent entry of
             None \<Rightarrow> Inl (PluginFileUnreadable (entryName entry))
           | Some content \<Rightarrow>
               (let raw = bytesTrimSpace content
                in if raw = [] then load_entries w entries
                   else if hd raw = CHR ''[''
                   then (case decodeDefinitions w raw of
                           None \<Rightarrow> Inl (PluginFileUnparsable (entryName entry))
                         | Some defs \<Rightarrow>
                             (case load_entries w entries of
                                Inl e \<Rightarrow> Inl e
                              | Inr rest \<Rightarrow> Inr (defs @ rest)))
                   else (case decodeDefinition w raw of
                           None \<Rightarrow> Inl (PluginFileUnparsable (entryName entry))
                         | Some d \<Rightarrow>
                             (case load_entries w entries of
                                Inl e \<Rightarrow> Inl e
                              | Inr rest \<Rightarrow> Inr (d # rest))))))"

definition LoadPlugins :: "sys \<Rightarrow> string \<Rightarrow> error + PluginDefinition list" where
  "LoadPlugins w dir =
     (case readDir w dir of
        DirMissing \<Rightarrow> Inr []
      | DirStatError \<Rightarrow> Inl StatFailed
      | DirNotDirectory \<Rightarrow> Inl (NotADirectory dir)
      | DirUnreadable \<Rightarrow> Inl ReadDirFailed
      | DirEntries entries \<Rightarrow> load_entries w entries)"

fun newest_mtime :: "int \<Rightarrow> dirEntry list \<Rightarrow> int" where
  "newest_mtime newest [] = newest"
| "newest_mtime newest (entry # entries) =
     (if entryIsDir entry \<or> Ext (entryName entry) \<noteq> ''.json'' then newest_mtime newest entries
      else (case entryModTime entry of
              None \<Rightarrow> newest_mtime newest entries
            | Some t \<Rightarrow> newest_mtime (if After t newest then t else newest) entries))"

definition latestPluginsMTime :: "sys \<Rightarrow> string \<Rightarrow> int" where
  "latestPluginsMTime w dir =
     (case readDir w dir of DirEntries entries \<Rightarrow> newest_mtime 0 entries | _ \<Rightarrow> 0)"

subsection \<open>Validation and runtimes\<close>

definition blacklist :: "string list" where
  "blacklist = [''rm'', ''sudo'', ''mv'', ''cp'', ''shutdown'', ''reboot'', ''halt'', ''init'']"

definition blacklistedCommand :: "sys \<Rightarrow> string \<Rightarrow> bool" where
  "blacklistedCommand w cmd = (ToLower (unicodeToLower w) (Base cmd) \<in> set blacklist)"

text \<open>The pattern \<open>^[a-zA-Z_:][a-zA-Z0-9_:]*$\<close>.\<close>

definition metricRegex :: re where
  "metricRegex = ReSeq ReBol (ReSeq (ReCls name_head_ranges) (ReSeq (ReStar (ReCls name_tail_ranges)) ReEol))"

text \<open>The three source blocks of \<open>validatePluginDefinition\<close>: each returns the error it
  finds, if any.\<close>

definition check_command :: "sys \<Rightarrow> PluginDefinition \<Rightarrow> error option" where
  "check_command w d =
     (case Command d of
        None \<Rightarrow> None
      | Some argv \<Rightarrow>
          if length argv = 0 then Some (CommandArrayRequired (PluginDefinition.Name d))
          else if blacklistedCommand w (hd argv)
          then Some (CommandBlacklisted (PluginDefinition.Name d) (hd argv))
          else None)"

definition check_http :: "PluginDefinition \<Rightarrow> error option" where
  "check_http d =
     (case HTTP d of
        None \<Rightarrow> None
      | Some url \<Rightarrow> if url = [] then Some (HTTPUrlRequired (PluginDefinition.Name d)) else None)"

definition check_file :: "PluginDefinition \<Rightarrow> error option" where
  "check_file d =
     (case File d of
        None \<Rightarrow> None
      | Some path \<Rightarrow> if path = [] then Some (FilePathRequired (PluginDefinition.Name d)) else None)"

definition sourceCount :: "PluginDefinition \<Rightarrow> nat" where
  "sourceCount d =
     (if Command d \<noteq> None then 1 else 0) + (if HTTP d \<noteq> None then 1 else 0)
       + (if File d \<noteq> None then 1 else 0)"

text \<open>\<open>validatePluginDefinition\<close>: \<open>None\<close> is the nil error.\<close>

definition validatePluginDefinition :: "sys \<Rightarrow> PluginDefinition \<Rightarrow> error option" where
  "validatePluginDefinition w d =
     (if PluginDefinition.Name d = [] then Some NameRequired
      else if Metric d = [] then Some (MetricRequired (PluginDefinition.Name d))
      else if \<not> MatchString metricRegex (Metric d)
      then Some (MetricGrammar (PluginDefinition.Name d) (Metric d))
      else if MetricType d \<noteq> ''gauge'' \<and> MetricType d \<noteq> ''counter''
      then Some (MetricTypeInvalid (PluginDefinition.Name d))
      else if IntervalSeconds d \<le>s 0 then Some (IntervalNotPositive (PluginDefinition.Name d))
      else (case check_command w d of
             Some e \<Rightarrow> Some e
           | None \<Rightarrow>
               (case check_http d of
                  Some e \<Rightarrow> Some e
                | None \<Rightarrow>
                    (case check_file d of
                       Some e \<Rightarrow> Some e
                     | None \<Rightarrow>
                         if sourceCount d = 0 then Some (NoSource (PluginDefinition.Name d))
                         else if sourceCount d > 1
                         then Some (ManySources (PluginDefinition.Name d))
                         else None))))"

definition normalizeParser :: "sys \<Rightarrow> PluginParser \<Rightarrow> error + parsedParser" where
  "normalizeParser w p =
     (let m = (if Mode p = [] then pluginParserNumber else Mode p)
      in if m = pluginParserNumber
         then Inr \<lparr>mode = pluginParserNumber, regex = None, rawRegex = [], rawMode = m\<rparr>
         else if m = pluginParserRegex
         then (if Regex p = [] then Inl RegexRequired
               else (case regexpCompile w (Regex p) of
                       None \<Rightarrow> Inl RegexInvalid
                     | Some rx \<Rightarrow>
                         Inr \<lparr>mode = pluginParserRegex, regex = Some rx, rawRegex = Regex p,
                              rawMode = m\<rparr>))
         else Inl (ParserModeUnsupported m))"

definition detectSource :: "PluginDefinition \<Rightarrow> string" where
  "detectSource d =
     (if Command d \<noteq> None then pluginSourceCommand
      else if HTTP d \<noteq> None then pluginSourceHTTP
      else if File d \<noteq> None then pluginSourceFile
      else [])"

text \<open>\<open>buildRuntime\<close>; \<open>now\<close> is the reading of \<open>time.Now()\<close> inside it.\<close>

definition buildRuntime :: "sys \<Rightarrow> int \<Rightarrow> PluginDefinition \<Rightarrow> string \<Rightarrow> error + pluginRuntime" where
  "buildRuntime w now d pfx =
     (case validatePluginDefinition w d of
        Some e \<Rightarrow> Inl e
      | None \<Rightarrow>
          (case normalizeParser w (Parser d) of
             Inl e \<Rightarrow> Inl (PluginError (PluginDefinition.Name d) e)
           | Inr pr \<Rightarrow>
               Inr \<lparr>def = d,
                    nextRun = now,
                    interval = IntervalSeconds d * Second,
                    timeout = (if 0 <s TimeoutSeconds d then TimeoutSeconds d * Second
                               else defaultPluginTimeout),
                    parser = pr,
                    source = detectSource d,
                    metricKey = pfx @ Metric d\<rparr>))"

text \<open>The loop of \<open>NewPluginCollector\<close> stops at the first definition that fails; the loop
  of \<open>maybeReload\<close> skips it. The \<open>k\<close>-th call of \<open>buildRuntime\<close> reads the clock as
  \<open>buildClock w k\<close>.\<close>

fun build_strict :: "sys \<Rightarrow> string \<Rightarrow> nat \<Rightarrow> PluginDefinition list \<Rightarrow> error + pluginRuntime list" where
  "build_strict w pfx k [] = Inr []"
| "build_strict w pfx k (d # ds) =
     (case buildRuntime w (buildClock w k) d pfx of
        Inl e \<Rightarrow> Inl e
      | Inr prt \<Rightarrow>
          (case build_strict w pfx (Suc k) ds of
             Inl e \<Rightarrow> Inl e
           | Inr rest \<Rightarrow> Inr (prt # rest)))"

fun build_lenient :: "sys \<Rightarrow> string \<Rightarrow> nat \<Rightarrow> PluginDefinition list \<Rightarrow> pluginRuntime list" where
  "build_lenient w pfx k [] = []"
| "build_lenient w pfx k (d # ds) =
     (case buildRuntime w (buildClock w k) d pfx of
        Inl e \<Rightarrow> build_lenient w pfx (Suc k) ds
      | Inr prt \<Rightarrow> prt # build_lenient w pfx (Suc k) ds)"

definition NewPluginCollector :: "sys \<Rightarrow> string \<Rightarrow> string \<Rightarrow> PluginDefinition list \<Rightarrow> error + PluginCollector" where
  "NewPluginCollector w pfx dir defs =
     (case build_strict w pfx 0 defs of
        Inl e \<Rightarrow> Inl e
      | Inr runtime \<Rightarrow>
          Inr \<lparr>prefix = pfx, plugins = runtime, pluginsDir = dir,
               lastMod = latestPluginsMTime w dir\<rparr>)"

definition maybeReload :: "sys \<Rightarrow> PluginCollector \<Rightarrow> PluginCollector" where
  "maybeReload w p =
     (if pluginsDir p = [] then p
      else let modTime = latestPluginsMTime w (pluginsDir p)
           in if \<not> After modTime (lastMod p) then p
              else (case LoadPlugins w (pluginsDir p) of
                      Inl e \<Rightarrow> p
                    | Inr defs \<Rightarrow>
                        p\<lparr>plugins := build_lenient w (prefix p) 0 defs, lastMod := modTime\<rparr>))"

subsection \<open>Executing a plugin\<close>

text \<open>\<open>parseValue\<close>. A nil \<open>*regexp.Regexp\<close> in regex mode is a nil dereference: the call
  panics.\<close>

definition parseValue :: "sys \<Rightarrow> string \<Rightarrow> parsedParser \<Rightarrow> (error + float64) go" where
  "parseValue w raw pr =
     (if mode pr = pluginParserNumber
      then Returns (case ParseFloat (parseFloatOther w) (TrimSpace raw) of
                      None \<Rightarrow> Inl (NotAFloat (TrimSpace raw))
                    | Some v \<Rightarrow> Inr v)
      else if mode pr = pluginParserRegex
      then (case regex pr of
              None \<Rightarrow> Panics
            | Some rx \<Rightarrow>
                (let matches = FindStringSubmatch rx raw
                 in if length matches < 2 then Returns (Inl (NoCaptureGroup (rawRegex pr)))
                    else Returns (case ParseFloat (parseFloatOther w) (matches ! 1) of
                                    None \<Rightarrow> Inl (NotAFloat (matches ! 1))
                                  | Some v \<Rightarrow> Inr v)))
      else Returns (Inl (ParserModeUnsupported (rawMode pr))))"

definition runCommand :: "sys \<Rightarrow> nat \<Rightarrow> string list option \<Rightarrow> parsedParser \<Rightarrow> (error + float64) go" where
  "runCommand w i src pr =
     (case src of
        None \<Rightarrow> Returns (Inl CommandSourceMissing)
      | Some argv \<Rightarrow>
          if length argv = 0 then Returns (Inl CommandSourceMissing)
          else (case combinedOutput w i argv of
                  None \<Rightarrow> Returns (Inl CommandFailed)
                | Some output \<Rightarrow> parseValue w output pr))"

definition runHTTP :: "sys \<Rightarrow> nat \<Rightarrow> string option \<Rightarrow> parsedParser \<Rightarrow> (error + float64) go" where
  "runHTTP w i src pr =
     (case src of
        None \<Rightarrow> Returns (Inl HTTPSourceMissing)
      | Some url \<Rightarrow>
          if url = [] then Returns (Inl HTTPSourceMissing)
          else (case httpGet w i url of
                  RequestInvalid \<Rightarrow> Returns (Inl RequestNotCreated)
                | TransportError \<Rightarrow> Returns (Inl RequestFailed)
                | Response status contentType body \<Rightarrow>
                    if status \<noteq> 200 then Returns (Inl (UnexpectedStatus status))
                    else (case body of
                            None \<Rightarrow> Returns (Inl BodyUnreadable)
                          | Some b \<Rightarrow> parseValue w b pr)))"

definition runFile :: "sys \<Rightarrow> nat \<Rightarrow> string option \<Rightarrow> parsedParser \<Rightarrow> (error + float64) go" where
  "runFile w i src pr =
     (case src of
        None \<Rightarrow> Returns (Inl FileSourceMissing)
      | Some path \<Rightarrow>
          if path = [] then Returns (Inl FileSourceMissing)
          else if contextDone w i then Returns (Inl ContextDone)
          else (case readFile w i path of
                  None \<Rightarrow> Returns (Inl FileUnreadable)
                | Some content \<Rightarrow> parseValue w content pr))"

definition execute :: "sys \<Rightarrow> nat \<Rightarrow> pluginRuntime \<Rightarrow> (error + float64) go" where
  "execute w i pl =
     (if source pl = pluginSourceCommand then runCommand w i (Command (def pl)) (parser pl)
      else if source pl = pluginSourceHTTP then runHTTP w i (HTTP (def pl)) (parser pl)
      else if source pl = pluginSourceFile then runFile w i (File (def pl)) (parser pl)
      else Returns (Inl (UnknownSource (source pl))))"

subsection \<open>Collect\<close>

definition pluginMetric :: "pluginRuntime \<Rightarrow> float64 \<Rightarrow> Metric" where
  "pluginMetric pl v =
     \<lparr>Metric.Name = metricKey pl,
      Metric.Labels = (PluginDefinition.Labels (def pl))(''plugin'' \<mapsto> PluginDefinition.Name (def pl)),
      Value = v,
      Type = MetricType (def pl)\<rparr>"

text \<open>The loop of \<open>Collect\<close> from plugin number \<open>i\<close> on: the metrics appended and the
  runtimes as the loop leaves them.\<close>

fun collect_from :: "sys \<Rightarrow> int \<Rightarrow> nat \<Rightarrow> pluginRuntime list \<Rightarrow> (Metric list \<times> pluginRuntime list) go" where
  "collect_from w now i [] = Returns ([], [])"
| "collect_from w now i (pl # pls) =
     (if Before now (nextRun pl)
      then (case collect_from w now (Suc i) pls of
              Panics \<Rightarrow> Panics
            | Returns (ms, pls') \<Rightarrow> Returns (ms, pl # pls'))
      else (case execute w i pl of
             Panics \<Rightarrow> Panics
           | Returns (Inl err) \<Rightarrow>
               (case collect_from w now (Suc i) pls of
                  Panics \<Rightarrow> Panics
                | Returns (ms, pls') \<Rightarrow>
                    Returns (ms, pl\<lparr>nextRun := Add now (interval pl)\<rparr> # pls'))
           | Returns (Inr v) \<Rightarrow>
               (case collect_from w now (Suc i) pls of
                  Panics \<Rightarrow> Panics
                | Returns (ms, pls') \<Rightarrow>
                    Returns (pluginMetric pl v # ms,
                             pl\<lparr>nextRun := Add now (interval pl)\<rparr> # pls'))))"

text \<open>\<open>PluginCollector.Collect\<close>; \<open>now\<close> is the reading of \<open>time.Now()\<close> after the reload
  check. The result is the metrics, the error and the collector as the call leaves it.\<close>

definition PluginCollect :: "sys \<Rightarrow> int \<Rightarrow> PluginCollector \<Rightarrow> (Metric list \<times> error option \<times> PluginCollector) go" where
  "PluginCollect w now p =
     (let p1 = maybeReload w p
      in (case collect_from w now 0 (plugins p1) of
            Panics \<Rightarrow> Panics
          | Returns (ms, pls) \<Rightarrow> Returns (ms, None, p1\<lparr>plugins := pls\<rparr>)))"

section \<open>Endpoint scraper (internal/collector/http.go)\<close>

record EndpointConfig =
  Name :: string
  URL :: string

record HTTPCollector =
  endpoints :: "EndpointConfig list"

text \<open>The pattern
  \<open>^([a-zA-Z_:][a-zA-Z0-9_:]*)\s*(\{[^}]*\})?\s+([+-]?[0-9]*\.?[0-9]+(?:[eE][+-]?[0-9]+)?)\s*(\d+)?$\<close>.\<close>

definition cls_sign :: re where
  "cls_sign = ReCls [(CHR ''+'', CHR ''+''), (CHR ''-'', CHR ''-'')]"

definition metricLineRegex :: re where
  "metricLineRegex =
     ReSeq ReBol
    (ReSeq (ReGrp 1 (ReSeq (ReCls name_head_ranges) (ReStar (ReCls name_tail_ranges))))
    (ReSeq (ReStar cls_space)
    (ReSeq (ReOpt (ReGrp 2 (ReSeq (ReLit (CHR 0x7B))
                     (ReSeq (ReStar (ReNot [(CHR 0x7D, CHR 0x7D)])) (ReLit (CHR 0x7D))))))
    (ReSeq (RePlus cls_space)
    (ReSeq (ReGrp 3
            (ReSeq (ReOpt cls_sign)
            (ReSeq (ReStar cls_digit)
            (ReSeq (ReOpt (ReLit (CHR ''.'')))
            (ReSeq (RePlus cls_digit)
                 (ReOpt (ReSeq (ReCls [(CHR ''e'', CHR ''e''), (CHR ''E'', CHR ''E'')])
                      (ReSeq (ReOpt cls_sign) (RePlus cls_digit)))))))))
    (ReSeq (ReStar cls_space)
    (ReSeq (ReOpt (ReGrp 4 (RePlus cls_digit)))
         ReEol)))))))"

text \<open>The pattern \<open>([a-zA-Z_][a-zA-Z0-9_]*)="([^"]*)"\<close>.\<close>

definition labelRegex :: re where
  "labelRegex =
     ReSeq (ReGrp 1 (ReSeq (ReCls [(CHR ''a'', CHR ''z''), (CHR ''A'', CHR ''Z''), (CHR ''_'', CHR ''_'')])
                (ReStar (ReCls [(CHR ''a'', CHR ''z''), (CHR ''A'', CHR ''Z''), (CHR ''0'', CHR ''9''),
                            (CHR ''_'', CHR ''_'')]))))
    (ReSeq (ReLit (CHR ''=''))
    (ReSeq (ReLit (CHR 0x22))
    (ReSeq (ReGrp 2 (ReStar (ReNot [(CHR 0x22, CHR 0x22)])))
         (ReLit (CHR 0x22)))))"

definition add_label :: "string list \<Rightarrow> (string \<rightharpoonup> string) \<Rightarrow> (string \<rightharpoonup> string)" where
  "add_label lm labels = (if length lm = 3 then labels(lm ! 1 \<mapsto> lm ! 2) else labels)"

definition line_labels :: "string \<Rightarrow> string \<Rightarrow> (string \<rightharpoonup> string)" where
  "line_labels endpointName labelsStr =
     (if labelsStr \<noteq> []
      then fold add_label (FindAllStringSubmatch labelRegex (Trim labelsStr ''{}''))
             [''endpoint'' \<mapsto> endpointName]
      else [''endpoint'' \<mapsto> endpointName])"

definition line_type :: "(string \<rightharpoonup> string) \<Rightarrow> string \<Rightarrow> string" where
  "line_type metricTypes metricName =
     (case metricTypes metricName of
        Some t \<Rightarrow> if t = ''counter'' then ''counter'' else ''gauge''
      | None \<Rightarrow>
          if HasSuffix metricName ''_total'' \<or> HasSuffix metricName ''_count'' then ''counter''
          else ''gauge'')"

text \<open>The scanner loop of \<open>parsePrometheusMetrics\<close>, with the table of \<open>TYPE\<close> directives
  seen so far. A match of \<open>metricLineRegex\<close> has five elements.\<close>

fun parse_lines :: "sys \<Rightarrow> string \<Rightarrow> (string \<rightharpoonup> string) \<Rightarrow> string list \<Rightarrow> Metric list" where
  "parse_lines w endpointName metricTypes [] = []"
| "parse_lines w endpointName metricTypes (text # rest) =
     (let line = TrimSpace text
      in if line = [] then parse_lines w endpointName metricTypes rest
         else if HasPrefix line ''# TYPE ''
         then (let parts = Fields line
               in parse_lines w endpointName
                    (if length parts \<ge> 4 then metricTypes(parts ! 2 \<mapsto> parts ! 3)
                     else metricTypes)
                    rest)
         else if HasPrefix line ''#'' then parse_lines w endpointName metricTypes rest
         else (case FindStringSubmatch metricLineRegex line of
                [] \<Rightarrow> parse_lines w endpointName metricTypes rest
              | matches \<Rightarrow>
                  (case ParseFloat (parseFloatOther w) (matches ! 3) of
                     None \<Rightarrow> parse_lines w endpointName metricTypes rest
                   | Some v \<Rightarrow>
                       \<lparr>Metric.Name = matches ! 1,
                        Metric.Labels = line_labels endpointName (matches ! 2),
                        Value = v,
                        Type = line_type metricTypes (matches ! 1)\<rparr>
                       # parse_lines w endpointName metricTypes rest)))"

definition parsePrometheusMetrics :: "sys \<Rightarrow> string \<Rightarrow> string \<Rightarrow> Metric list" where
  "parsePrometheusMetrics w endpointName body =
     parse_lines w endpointName Map.empty (scanLines body)"

text \<open>\<open>parseJSONMetrics\<close> ranges over the decoded object in whatever order the runtime picks,
  which is the order of the list. \<open>encoding/json\<close> decodes into \<open>interface{}\<close> every number as
  a \<open>float64\<close>, so the other numeric cases of the type switch are never taken.\<close>

fun parseJSONMetrics :: "string \<Rightarrow> (string \<times> jsonValue) list \<Rightarrow> Metric list" where
  "parseJSONMetrics endpointName [] = []"
| "parseJSONMetrics endpointName ((key, JSONNumber v) # rest) =
     \<lparr>Metric.Name = ''app_'' @ key, Metric.Labels = [''endpoint'' \<mapsto> endpointName],
      Value = v, Type = ''gauge''\<rparr>
     # parseJSONMetrics endpointName rest"
| "parseJSONMetrics endpointName ((key, JSONOther) # rest) = parseJSONMetrics endpointName rest"

definition scrapeEndpoint :: "sys \<Rightarrow> nat \<Rightarrow> EndpointConfig \<Rightarrow> error + Metric list" where
  "scrapeEndpoint w i endpoint =
     (case httpGet w i (URL endpoint) of
        RequestInvalid \<Rightarrow> Inl RequestNotCreated
      | TransportError \<Rightarrow> Inl RequestFailed
      | Response status contentType body \<Rightarrow>
          if status \<noteq> 200 then Inl (UnexpectedStatus status)
          else (case body of
                 None \<Rightarrow> Inl BodyUnreadable
               | Some b \<Rightarrow>
                   if Contains contentType ''application/json''
                   then (case decodeObject w b of
                           None \<Rightarrow> Inl JSONUnparsable
                         | Some rawMetrics \<Rightarrow>
                             Inr (parseJSONMetrics (EndpointConfig.Name endpoint) rawMetrics))
                   else let metrics = parsePrometheusMetrics w (EndpointConfig.Name endpoint) b
                        in if length metrics > 0 then Inr metrics
                           else (case decodeObject w b of
                                   None \<Rightarrow> Inl ResponseUnparsable
                                 | Some rawMetrics \<Rightarrow>
                                     Inr (parseJSONMetrics (EndpointConfig.Name endpoint)
                                            rawMetrics))))"

fun scrape_from :: "sys \<Rightarrow> nat \<Rightarrow> EndpointConfig list \<Rightarrow> Metric list" where
  "scrape_from w i [] = []"
| "scrape_from w i (endpoint # rest) =
     (case scrapeEndpoint w i endpoint of
        Inl err \<Rightarrow> scrape_from w (Suc i) rest
      | Inr endpointMetrics \<Rightarrow> endpointMetrics @ scrape_from w (Suc i) rest)"

text \<open>\<open>HTTPCollector.Collect\<close>: the metrics and the error.\<close>

definition HTTPCollect :: "sys \<Rightarrow> HTTPCollector \<Rightarrow> Metric list \<times> error option" where
  "HTTPCollect w c = (scrape_from w 0 (endpoints c), None)"

section \<open>Concrete inputs\<close>

text \<open>A world in which nothing outside the process answers: every library parameter
  refuses, the plugins directory does not exist, every command, request and read fails.\<close>

definition quietSys :: sys where
  "quietSys =
     \<lparr>unicodeToLower = (\<lambda>s. s), regexpCompile = (\<lambda>s. None), parseFloatOther = (\<lambda>s. None),
      decodeDefinition = (\<lambda>s. None), decodeDefinitions = (\<lambda>s. None),
      decodeObject = (\<lambda>s. None), readDir = (\<lambda>dir. DirMissing), buildClock = (\<lambda>k. 0),
      combinedOutput = (\<lambda>i argv. None), httpGet = (\<lambda>i url. TransportError),
      readFile = (\<lambda>i path. None), contextDone = (\<lambda>i. False)\<rparr>"

text \<open>A definition as the plugin documentation shows it: a command probe every 15
  seconds, no timeout given.\<close>

definition rxBytes :: PluginDefinition where
  "rxBytes =
     \<lparr>PluginDefinition.Name = ''rx_bytes'', Metric = ''net_rx_bytes'', MetricType = ''counter'',
      IntervalSeconds = 15, PluginDefinition.Labels = Map.empty, TimeoutSeconds = 0,
      Parser = \<lparr>Mode = [], Regex = []\<rparr>,
      Command = Some [''cat'', ''/sys/class/net/eth0/statistics/rx_bytes''],
      HTTP = None, File = None\<rparr>"

text \<open>The runtime \<open>buildRuntime\<close> makes of it at time 0 under the prefix \<open>metricsd_\<close>, and a
  collector holding it, loaded when the newest file of the directory \<open>plugins\<close> was of
  time 5.\<close>

definition rxRuntime :: pluginRuntime where
  "rxRuntime =
     \<lparr>def = rxBytes, nextRun = 0, interval = 15 * Second, timeout = defaultPluginTimeout,
      parser = \<lparr>mode = pluginParserNumber, regex = None, rawRegex = [],
                rawMode = pluginParserNumber\<rparr>,
      source = pluginSourceCommand, metricKey = ''metricsd_net_rx_bytes''\<rparr>"

definition loadedCollector :: PluginCollector where
  "loadedCollector =
     \<lparr>prefix = ''metricsd_'', plugins = [rxRuntime], pluginsDir = ''plugins'', lastMod = 5\<rparr>"

definition pluginsFolder :: "int \<Rightarrow> string \<Rightarrow> dirState" where
  "pluginsFolder t content =
     DirEntries [\<lparr>entryName = ''rx.json'', entryIsDir = False, entryModTime = Some t,
                  entryContent = Some content\<rparr>]"

text \<open>Three states of the directory: untouched since the load; touched, and the file no
  longer parses; touched, and the file now asks for an interval of 30 seconds.\<close>

definition staleSys :: sys where
  "staleSys = quietSys\<lparr>readDir := (\<lambda>dir. pluginsFolder 5 ''{}'')\<rparr>"

definition brokenSys :: sys where
  "brokenSys = quietSys\<lparr>readDir := (\<lambda>dir. pluginsFolder 9 ''{'')\<rparr>"

definition editedSys :: sys where
  "editedSys =
     quietSys\<lparr>readDir := (\<lambda>dir. pluginsFolder 9 ''{}''),
              decodeDefinition := (\<lambda>raw. Some (rxBytes\<lparr>IntervalSeconds := 30\<rparr>))\<rparr>"

text \<open>The same probe with an interval of 9223372037 seconds, which \<open>encoding/json\<close> decodes
  into an \<open>int\<close> and validation accepts.\<close>

definition rxBytesRarely :: PluginDefinition where
  "rxBytesRarely = rxBytes\<lparr>IntervalSeconds := 9223372037\<rparr>"

definition appEndpoints :: HTTPCollector where
  "appEndpoints = \<lparr>endpoints = [\<lparr>Name = ''myapp'', URL = ''http://localhost:8080/metrics''\<rparr>]\<rparr>"

text \<open>A parser is usable when regex mode comes with a compiled pattern.\<close>

definition parserUsable :: "parsedParser \<Rightarrow> bool" where
  "parserUsable pr = (mode pr \<noteq> pluginParserRegex \<or> regex pr \<noteq> None)"

definition parsersCompiled :: "pluginRuntime list \<Rightarrow> bool" where
  "parsersCompiled pls = list_all (\<lambda>pl. parserUsable (parser pl)) pls"

definition isLetter :: "char \<Rightarrow> bool" where
  "isLetter c = ((65 \<le> (of_char c :: nat) \<and> (of_char c :: nat) \<le> 90)
                 \<or> (97 \<le> (of_char c :: nat) \<and> (of_char c :: nat) \<le> 122))"

definition nameStart :: "char \<Rightarrow> bool" where
  "nameStart c = (isLetter c \<or> c = CHR ''_'' \<or> c = CHR '':'')"

definition nameChar :: "char \<Rightarrow> bool" where
  "nameChar c = (nameStart c \<or> isDigit c)"

definition metricNameGrammar :: "string \<Rightarrow> bool" where
  "metricNameGrammar s = (case s of [] \<Rightarrow> False | c # cs \<Rightarrow> nameStart c \<and> list_all nameChar cs)"

text \<open>Acceptance as the specification words it: name and metric non-empty, the metric in the
  grammar, the type \<open>gauge\<close> or \<open>counter\<close>, a positive interval, exactly one source.\<close>

definition claimedAcceptance :: "PluginDefinition \<Rightarrow> bool" where
  "claimedAcceptance d =
     (PluginDefinition.Name d \<noteq> [] \<and> Metric d \<noteq> [] \<and> metricNameGrammar (Metric d)
      \<and> (MetricType d = ''gauge'' \<or> MetricType d = ''counter'')
      \<and> 0 <s IntervalSeconds d
      \<and> sourceCount d = 1)"

text \<open>What the code asks of a source that is set: a command has an argument vector whose
  executable is not on the deny-list, an HTTP source a URL, a file source a path.\<close>

definition sourceWellFormed :: "sys \<Rightarrow> PluginDefinition \<Rightarrow> bool" where
  "sourceWellFormed w d =
     ((case Command d of None \<Rightarrow> True | Some argv \<Rightarrow> argv \<noteq> [] \<and> \<not> blacklistedCommand w (hd argv))
      \<and> (case HTTP d of None \<Rightarrow> True | Some url \<Rightarrow> url \<noteq> [])
      \<and> (case File d of None \<Rightarrow> True | Some path \<Rightarrow> path \<noteq> []))"

text \<open>An HTTP probe whose declaration gives no URL, as \<open>"http": {}\<close> decodes.\<close>

definition urlLessProbe :: PluginDefinition where
  "urlLessProbe = rxBytes\<lparr>Command := None, HTTP := Some []\<rparr>"

text \<open>A command probe whose executable is \<open>sudo\<close> behind a path and in mixed case.\<close>

definition sudoProbe :: PluginDefinition where
  "sudoProbe = rxBytes\<lparr>Command := Some [''/usr/local/bin/SuDo'', ''reboot'']\<rparr>"



text \<open>The exposition text of the specification: a \<open>TYPE\<close> line and one sample with a label
  and a timestamp.\<close>

definition typeLine :: string where
  "typeLine = ''# TYPE http_requests counter''"

definition sampleLine :: string where
  "sampleLine =
     ''http_requests{method='' @ [CHR 0x22] @ ''GET'' @ [CHR 0x22] @ ''} 1027 1395066363000''"

definition expositionBody :: string where
  "expositionBody = typeLine @ [CHR 0x0A] @ sampleLine"

section \<open>Label injection\<close>

lemma labelMetric_hostname: "Metric.Labels (labelMetric orch m) ''hostname'' = Some (hostname orch)"
  by (simp add: labelMetric_def overlayLabels_def)

lemma labelMetric_global:
  "globalLabels orch k = Some v \<Longrightarrow> k \<noteq> ''hostname'' \<Longrightarrow> Metric.Labels (labelMetric orch m) k = Some v"
  by (simp add: labelMetric_def overlayLabels_def)

lemma labelMetric_other:
  "globalLabels orch k = None \<Longrightarrow> k \<noteq> ''hostname'' \<Longrightarrow> Metric.Labels (labelMetric orch m) k = Metric.Labels m k"
  by (simp add: labelMetric_def overlayLabels_def)

lemma labelMetric_keeps:
  "Metric.Name (labelMetric orch m) = Metric.Name m \<and> Value (labelMetric orch m) = Value m
     \<and> Type (labelMetric orch m) = Type m"
  by (simp add: labelMetric_def)

section \<open>Claims about the orchestrator\<close>

text \<open>
  C4. When collection succeeds, the batch handed to the shipper is the collected batch, metric by
  metric and in the same order, where every metric carries the label \<open>hostname\<close> with the
  orchestrator's host identity and every entry of the global-label map whose key is not
  \<open>hostname\<close>; an entry of the global-label map under the key \<open>hostname\<close> is never written
  over the host identity.
\<close>

theorem shipped_batch_carries_global_labels:
  "collectAndShip orch (ms, None) = Some (addGlobalLabels orch ms)
   \<and> length (addGlobalLabels orch ms) = length ms
   \<and> (\<forall>m \<in> set (addGlobalLabels orch ms).
         Metric.Labels m ''hostname'' = Some (hostname orch)
         \<and> (\<forall>k v. globalLabels orch k = Some v \<and> k \<noteq> ''hostname'' \<longrightarrow> Metric.Labels m k = Some v))"
proof -
  have "Metric.Labels m ''hostname'' = Some (hostname orch)
        \<and> (\<forall>k v. globalLabels orch k = Some v \<and> k \<noteq> ''hostname'' \<longrightarrow> Metric.Labels m k = Some v)"
    if "m \<in> set (addGlobalLabels orch ms)" for m
  proof -
    from that obtain m0 where "m = labelMetric orch m0"
      by (auto simp: addGlobalLabels_def)
    then show ?thesis
      by (simp add: labelMetric_hostname labelMetric_global)
  qed
  then show ?thesis
    by (simp add: collectAndShip_def addGlobalLabels_def)
qed

text \<open>The cycle of the specification: one source returning \<open>a = 1\<close> and \<open>b = 2\<close>, global labels
  \<open>{env: prod}\<close>, hostname \<open>h1\<close>. Both shipped metrics carry \<open>hostname = h1\<close> and
  \<open>env = prod\<close>.\<close>

theorem shipped_batch_carries_global_labels_witness:
  "hostname exampleOrchestrator = ''h1''
   \<and> globalLabels exampleOrchestrator ''env'' = Some ''prod''
   \<and> (\<exists>a' b'. collectAndShip exampleOrchestrator (exampleBatch, None) = Some [a', b']
         \<and> Metric.Name a' = ''a'' \<and> Value a' = Finite 1 \<and> Metric.Name b' = ''b'' \<and> Value b' = Finite 2
         \<and> Metric.Labels a' ''hostname'' = Some ''h1'' \<and> Metric.Labels a' ''env'' = Some ''prod''
         \<and> Metric.Labels b' ''hostname'' = Some ''h1'' \<and> Metric.Labels b' ''env'' = Some ''prod'')"
proof -
  have h: "hostname exampleOrchestrator = ''h1''"
    and g: "globalLabels exampleOrchestrator ''env'' = Some ''prod''"
    by (simp_all add: exampleOrchestrator_def NewOrchestratorWithLabels_def resolveHostname_def)
  let ?a = "labelMetric exampleOrchestrator (exampleBatch ! 0)"
  let ?b = "labelMetric exampleOrchestrator (exampleBatch ! 1)"
  have batch: "addGlobalLabels exampleOrchestrator exampleBatch = [?a, ?b]"
    by (simp add: addGlobalLabels_def exampleBatch_def)
  note all = shipped_batch_carries_global_labels [of exampleOrchestrator exampleBatch]
  have "collectAndShip exampleOrchestrator (exampleBatch, None) = Some [?a, ?b]"
    using all batch by simp
  moreover have "Metric.Labels ?a ''hostname'' = Some ''h1'' \<and> Metric.Labels ?a ''env'' = Some ''prod''"
    using all batch h g by simp
  moreover have "Metric.Labels ?b ''hostname'' = Some ''h1'' \<and> Metric.Labels ?b ''env'' = Some ''prod''"
    using all batch h g by simp
  moreover have "Metric.Name ?a = ''a'' \<and> Value ?a = Finite 1 \<and> Metric.Name ?b = ''b'' \<and> Value ?b = Finite 2"
    by (simp add: labelMetric_def exampleBatch_def)
  ultimately show ?thesis
    using h g by blast
qed

text \<open>
  C8 as stated fails: an entry \<open>hostname\<close> whose value is the empty string is in the map, and
  the constructor keeps the detected hostname.
\<close>

theorem empty_hostname_entry_counterexample:
  "[''hostname'' \<mapsto> []] ''hostname'' = Some ([] :: string)
   \<and> hostname (NewOrchestratorWithLabels (Some ''h1'') [''hostname'' \<mapsto> []]) = ''h1''
   \<and> hostname (NewOrchestratorWithLabels (Some ''h1'') [''hostname'' \<mapsto> []]) \<noteq> []"
  by (simp add: NewOrchestratorWithLabels_def resolveHostname_def)

text \<open>
  C8, amended. For every global-label map whose \<open>hostname\<close> entry is a non-empty string, the
  orchestrator constructed with that map has that string as its host identity, whatever the
  operating system reports. For every map whose \<open>hostname\<close> entry is the empty string, and for
  every map without such an entry, the host identity is the detected one, that of the
  constructor without labels: the name the operating system reports, or \<open>unknown\<close> when it
  reports an error. In every case the host identity is the \<open>hostname\<close> label of every shipped
  metric.
\<close>

theorem hostname_entry_overrides_unless_empty:
  "(\<forall>v. gl ''hostname'' = Some v \<and> v \<noteq> [] \<longrightarrow>
        hostname (NewOrchestratorWithLabels os_hostname gl) = v)
   \<and> (gl ''hostname'' = Some [] \<or> gl ''hostname'' = None \<longrightarrow>
        hostname (NewOrchestratorWithLabels os_hostname gl) = hostname (NewOrchestrator os_hostname)
        \<and> hostname (NewOrchestratorWithLabels os_hostname gl)
            = (case os_hostname of None \<Rightarrow> ''unknown'' | Some h \<Rightarrow> h))
   \<and> globalLabels (NewOrchestratorWithLabels os_hostname gl) = gl
   \<and> (\<forall>m \<in> set (addGlobalLabels (NewOrchestratorWithLabels os_hostname gl) ms).
         Metric.Labels m ''hostname'' = Some (hostname (NewOrchestratorWithLabels os_hostname gl)))
   \<and> collectAndShip (NewOrchestratorWithLabels os_hostname gl) (ms, None)
       = Some (addGlobalLabels (NewOrchestratorWithLabels os_hostname gl) ms)"
proof -
  let ?o = "NewOrchestratorWithLabels os_hostname gl"
  have set: "hostname ?o = v" if "gl ''hostname'' = Some v" and "v \<noteq> []" for v
    using that by (simp add: NewOrchestratorWithLabels_def)
  have kept: "hostname ?o = hostname (NewOrchestrator os_hostname)
              \<and> hostname ?o = (case os_hostname of None \<Rightarrow> ''unknown'' | Some h \<Rightarrow> h)"
    if "gl ''hostname'' = Some [] \<or> gl ''hostname'' = None"
    using that
    by (auto simp: NewOrchestratorWithLabels_def NewOrchestrator_def resolveHostname_def)
  have gls: "globalLabels ?o = gl"
    by (simp add: NewOrchestratorWithLabels_def Let_def)
  have lab: "Metric.Labels m ''hostname'' = Some (hostname ?o)"
    if "m \<in> set (addGlobalLabels ?o ms)" for m
  proof -
    from that obtain m0 where "m = labelMetric ?o m0"
      by (auto simp: addGlobalLabels_def)
    then show ?thesis
      by (simp add: labelMetric_hostname)
  qed
  have ship: "collectAndShip ?o (ms, None) = Some (addGlobalLabels ?o ms)"
    by (simp add: collectAndShip_def)
  show ?thesis
    using set kept gls lab ship by blast
qed

text \<open>Three maps on a host the operating system calls \<open>h1\<close>, and one on a host whose name
  it cannot tell: a \<open>hostname\<close> entry \<open>edge-7\<close>, an empty \<open>hostname\<close> entry, no \<open>hostname\<close>
  entry.\<close>

theorem hostname_entry_overrides_unless_empty_witness:
  "[''hostname'' \<mapsto> ''edge-7''] ''hostname'' = Some ''edge-7'' \<and> ''edge-7'' \<noteq> []
   \<and> hostname (NewOrchestratorWithLabels (Some ''h1'') [''hostname'' \<mapsto> ''edge-7'']) = ''edge-7''
   \<and> map (\<lambda>m. Metric.Labels m ''hostname'')
         (addGlobalLabels (NewOrchestratorWithLabels (Some ''h1'') [''hostname'' \<mapsto> ''edge-7''])
            exampleBatch)
       = [Some ''edge-7'', Some ''edge-7'']
   \<and> [''hostname'' \<mapsto> []] ''hostname'' = Some ([] :: string)
   \<and> hostname (NewOrchestratorWithLabels (Some ''h1'') [''hostname'' \<mapsto> []]) = ''h1''
   \<and> map (\<lambda>m. Metric.Labels m ''hostname'')
         (addGlobalLabels (NewOrchestratorWithLabels (Some ''h1'') [''hostname'' \<mapsto> []])
            exampleBatch)
       = [Some ''h1'', Some ''h1'']
   \<and> [''env'' \<mapsto> ''prod''] ''hostname'' = None
   \<and> hostname (NewOrchestratorWithLabels (Some ''h1'') [''env'' \<mapsto> ''prod'']) = ''h1''
   \<and> hostname (NewOrchestratorWithLabels None [''hostname'' \<mapsto> []]) = ''unknown''"
proof -
  let ?set = "[''hostname'' \<mapsto> ''edge-7'']"
  let ?empty = "[''hostname'' \<mapsto> []] :: string \<rightharpoonup> string"
  let ?none = "[''env'' \<mapsto> ''prod'']"
  have a: "?set ''hostname'' = Some ''edge-7''" and b: "''edge-7'' \<noteq> []"
    and c: "?empty ''hostname'' = Some []" and d: "?none ''hostname'' = None"
    by simp_all
  have two: "addGlobalLabels orch exampleBatch
               = [labelMetric orch (exampleBatch ! 0), labelMetric orch (exampleBatch ! 1)]" for orch
    by (simp add: addGlobalLabels_def exampleBatch_def)
  note s = hostname_entry_overrides_unless_empty [of ?set "Some ''h1''" exampleBatch]
  note e = hostname_entry_overrides_unless_empty [of ?empty "Some ''h1''" exampleBatch]
  note n = hostname_entry_overrides_unless_empty [of ?none "Some ''h1''" exampleBatch]
  note u = hostname_entry_overrides_unless_empty [of ?empty None exampleBatch]
  have hs: "hostname (NewOrchestratorWithLabels (Some ''h1'') ?set) = ''edge-7''"
    using s a b by blast
  have "hostname (NewOrchestratorWithLabels (Some ''h1'') ?empty)
          = (case Some ''h1'' of None \<Rightarrow> ''unknown'' | Some h \<Rightarrow> h)"
    using e c by blast
  then have he: "hostname (NewOrchestratorWithLabels (Some ''h1'') ?empty) = ''h1''"
    by simp
  have "hostname (NewOrchestratorWithLabels (Some ''h1'') ?none)
          = (case Some ''h1'' of None \<Rightarrow> ''unknown'' | Some h \<Rightarrow> h)"
    using n d by blast
  then have hn: "hostname (NewOrchestratorWithLabels (Some ''h1'') ?none) = ''h1''"
    by simp
  have "hostname (NewOrchestratorWithLabels None ?empty)
          = (case None :: string option of None \<Rightarrow> ''unknown'' | Some h \<Rightarrow> h)"
    using u c by blast
  then have hu: "hostname (NewOrchestratorWithLabels None ?empty) = ''unknown''"
    by simp
  have ls: "map (\<lambda>m. Metric.Labels m ''hostname'')
              (addGlobalLabels (NewOrchestratorWithLabels (Some ''h1'') ?set) exampleBatch)
            = [Some ''edge-7'', Some ''edge-7'']"
  proof -
    have "\<forall>m \<in> set (addGlobalLabels (NewOrchestratorWithLabels (Some ''h1'') ?set) exampleBatch).
            Metric.Labels m ''hostname'' = Some ''edge-7''"
      using s hs by simp
    then show ?thesis
      by (simp add: two)
  qed
  have le: "map (\<lambda>m. Metric.Labels m ''hostname'')
              (addGlobalLabels (NewOrchestratorWithLabels (Some ''h1'') ?empty) exampleBatch)
            = [Some ''h1'', Some ''h1'']"
  proof -
    have "\<forall>m \<in> set (addGlobalLabels (NewOrchestratorWithLabels (Some ''h1'') ?empty) exampleBatch).
            Metric.Labels m ''hostname'' = Some ''h1''"
      using e he by simp
    then show ?thesis
      by (simp add: two)
  qed
  show ?thesis
    by (intro conjI) (fact a b c d hs he hn hu ls le)+
qed

section \<open>Timeouts\<close>

lemma checks_ignore_timeout:
  "check_command w (d\<lparr>TimeoutSeconds := t\<rparr>) = check_command w d"
  "check_http (d\<lparr>TimeoutSeconds := t\<rparr>) = check_http d"
  "check_file (d\<lparr>TimeoutSeconds := t\<rparr>) = check_file d"
  "sourceCount (d\<lparr>TimeoutSeconds := t\<rparr>) = sourceCount d"
  by (simp_all add: check_command_def check_http_def check_file_def sourceCount_def
        split: option.split)

lemma validate_ignores_timeout:
  "validatePluginDefinition w (d\<lparr>TimeoutSeconds := t\<rparr>) = validatePluginDefinition w d"
  by (simp add: validatePluginDefinition_def checks_ignore_timeout split: option.split)

lemma sint_defaultPluginTimeout: "sint defaultPluginTimeout = 10000000000"
  by (simp add: defaultPluginTimeout_def Second_def)

text \<open>
  C10. A definition that passes validation and whose \<open>timeout_seconds\<close> is absent (the zero
  value), zero or negative gets a runtime whose timeout is the default of 10 seconds, that is
  10000000000 nanoseconds; the only way \<open>buildRuntime\<close> can still refuse it is its parser.
  Validation and the outcome of \<open>buildRuntime\<close> do not depend on \<open>timeout_seconds\<close> at all.
\<close>

theorem nonpositive_timeout_defaults:
  assumes "validatePluginDefinition w d = None" and "TimeoutSeconds d \<le>s 0"
  shows "(case normalizeParser w (Parser d) of
            Inl e \<Rightarrow> buildRuntime w now d pfx = Inl (PluginError (PluginDefinition.Name d) e)
          | Inr pr \<Rightarrow> (\<exists>rt. buildRuntime w now d pfx = Inr rt
                          \<and> timeout rt = defaultPluginTimeout \<and> sint (timeout rt) = 10000000000))
         \<and> validatePluginDefinition w (d\<lparr>TimeoutSeconds := t\<rparr>) = validatePluginDefinition w d
         \<and> isl (buildRuntime w now (d\<lparr>TimeoutSeconds := t\<rparr>) pfx) = isl (buildRuntime w now d pfx)"
proof -
  have neg: "\<not> 0 <s TimeoutSeconds d"
    using assms(2) by (simp add: word_sle_eq word_sless_alt)
  have first: "case normalizeParser w (Parser d) of
            Inl e \<Rightarrow> buildRuntime w now d pfx = Inl (PluginError (PluginDefinition.Name d) e)
          | Inr pr \<Rightarrow> (\<exists>rt. buildRuntime w now d pfx = Inr rt
                          \<and> timeout rt = defaultPluginTimeout \<and> sint (timeout rt) = 10000000000)"
    using assms(1) neg
    by (simp add: buildRuntime_def sint_defaultPluginTimeout split: sum.split)
  have third: "isl (buildRuntime w now (d\<lparr>TimeoutSeconds := t\<rparr>) pfx) = isl (buildRuntime w now d pfx)"
    by (simp add: buildRuntime_def validate_ignores_timeout split: option.split sum.split)
  show ?thesis
    using first third validate_ignores_timeout by blast
qed

lemma metricRegex_net_rx_bytes: "MatchString metricRegex ''net_rx_bytes''"
  by (simp add: MatchString_def metricRegex_def eat_def in_ranges_def name_head_ranges_def
        name_tail_ranges_def)

lemma Base_cat: "Base ''cat'' = ''cat''"
  by (simp add: Base_def)

lemma rxBytes_valid: "validatePluginDefinition quietSys rxBytes = None"
  by (simp add: validatePluginDefinition_def rxBytes_def metricRegex_net_rx_bytes
        check_command_def check_http_def check_file_def sourceCount_def blacklistedCommand_def
        Base_cat ToLower_def isASCII_def lowerASCII_def isUpperASCII_def blacklist_def
        word_sle_eq)

theorem nonpositive_timeout_defaults_witness:
  "validatePluginDefinition quietSys rxBytes = None
   \<and> TimeoutSeconds rxBytes \<le>s 0
   \<and> validatePluginDefinition quietSys (rxBytes\<lparr>TimeoutSeconds := - 5\<rparr>) = None
   \<and> (\<exists>rt. buildRuntime quietSys 0 rxBytes ''metricsd_'' = Inr rt
           \<and> sint (timeout rt) = 10000000000)
   \<and> (\<exists>rt. buildRuntime quietSys 0 (rxBytes\<lparr>TimeoutSeconds := - 5\<rparr>) ''metricsd_'' = Inr rt
           \<and> sint (timeout rt) = 10000000000)"
proof -
  let ?neg = "rxBytes\<lparr>TimeoutSeconds := - 5\<rparr>"
  have v: "validatePluginDefinition quietSys rxBytes = None"
    by (rule rxBytes_valid)
  have t: "TimeoutSeconds rxBytes \<le>s 0"
    by (simp add: rxBytes_def)
  have vn: "validatePluginDefinition quietSys ?neg = None"
    using v by (simp add: validate_ignores_timeout)
  have tn: "TimeoutSeconds ?neg \<le>s 0"
    by (simp add: word_sle_eq)
  have p: "normalizeParser quietSys (Parser rxBytes)
           = Inr \<lparr>mode = pluginParserNumber, regex = None, rawRegex = [], rawMode = pluginParserNumber\<rparr>"
    by (simp add: normalizeParser_def rxBytes_def)
  have pn: "normalizeParser quietSys (Parser ?neg)
           = Inr \<lparr>mode = pluginParserNumber, regex = None, rawRegex = [], rawMode = pluginParserNumber\<rparr>"
    by (simp add: normalizeParser_def rxBytes_def)
  have a: "\<exists>rt. buildRuntime quietSys 0 rxBytes ''metricsd_'' = Inr rt
              \<and> sint (timeout rt) = 10000000000"
    using nonpositive_timeout_defaults [OF v t, of 0 "''metricsd_''" 0] p by auto
  have b: "\<exists>rt. buildRuntime quietSys 0 ?neg ''metricsd_'' = Inr rt
              \<and> sint (timeout rt) = 10000000000"
    using nonpositive_timeout_defaults [OF vn tn, of 0 "''metricsd_''" 0] pn by auto
  show ?thesis
    using v t vn a b by blast
qed

section \<open>The collection loop and hot reload\<close>

text \<open>What one pass of the loop may do to a runtime: leave it, or re-arm it.\<close>

lemma collect_from_shape:
  "collect_from w now i pls = Returns (ms, pls') \<Longrightarrow>
     length pls' = length pls
     \<and> (\<forall>k < length pls.
           (Before now (nextRun (pls ! k)) \<and> pls' ! k = pls ! k)
           \<or> (\<not> Before now (nextRun (pls ! k))
               \<and> pls' ! k = (pls ! k)\<lparr>nextRun := Add now (interval (pls ! k))\<rparr>))"
proof (induction pls arbitrary: i ms pls')
  case Nil
  then show ?case by simp
next
  case (Cons pl pls)
  from Cons.prems obtain ms0 pls0 where
    tl: "collect_from w now (Suc i) pls = Returns (ms0, pls0)"
    and hd: "pls' = (if Before now (nextRun pl) then pl
                     else pl\<lparr>nextRun := Add now (interval pl)\<rparr>) # pls0"
    by (auto split: if_splits go.splits sum.splits prod.splits)
  from Cons.IH [OF tl] have len: "length pls0 = length pls"
    and rest: "\<forall>k < length pls.
           (Before now (nextRun (pls ! k)) \<and> pls0 ! k = pls ! k)
           \<or> (\<not> Before now (nextRun (pls ! k))
               \<and> pls0 ! k = (pls ! k)\<lparr>nextRun := Add now (interval (pls ! k))\<rparr>)"
    by simp_all
  show ?case
  proof (intro conjI allI impI)
    show "length pls' = length (pl # pls)"
      using hd len by simp
  next
    fix k assume "k < length (pl # pls)"
    then show "(Before now (nextRun ((pl # pls) ! k)) \<and> pls' ! k = (pl # pls) ! k)
           \<or> (\<not> Before now (nextRun ((pl # pls) ! k))
               \<and> pls' ! k = ((pl # pls) ! k)\<lparr>nextRun := Add now (interval ((pl # pls) ! k))\<rparr>)"
      using hd rest by (cases k) auto
  qed
qed

lemma collect_from_defs:
  assumes "collect_from w now i pls = Returns (ms, pls')"
  shows "map def pls' = map def pls"
proof (rule nth_equalityI)
  show "length (map def pls') = length (map def pls)"
    using collect_from_shape [OF assms] by simp
next
  fix k assume "k < length (map def pls')"
  then have k: "k < length pls" and k': "k < length pls'"
    using collect_from_shape [OF assms] by simp_all
  have "def (pls' ! k) = def (pls ! k)"
    using collect_from_shape [OF assms] k by auto
  then show "map def pls' ! k = map def pls ! k"
    using k k' by simp
qed

text \<open>
  C2. When the newest modification time of the plugins directory is not after the last one
  seen, or \<open>LoadPlugins\<close> returns an error, the reload check leaves the collector as it was,
  and \<open>Collect\<close> runs its loop over the runtimes it had. When the reload check does change the
  runtimes, the directory is set, its modification time is newer and \<open>LoadPlugins\<close> returned
  the definitions without an error; the new runtimes are built from exactly those.
\<close>

theorem reload_failure_keeps_runtimes:
  "(\<not> After (latestPluginsMTime w (pluginsDir p)) (lastMod p) \<or> isl (LoadPlugins w (pluginsDir p))
      \<longrightarrow> maybeReload w p = p
          \<and> PluginCollect w now p =
              (case collect_from w now 0 (plugins p) of
                 Panics \<Rightarrow> Panics
               | Returns (ms, pls) \<Rightarrow> Returns (ms, None, p\<lparr>plugins := pls\<rparr>)))
   \<and> (plugins (maybeReload w p) \<noteq> plugins p
      \<longrightarrow> pluginsDir p \<noteq> []
          \<and> After (latestPluginsMTime w (pluginsDir p)) (lastMod p)
          \<and> (\<exists>defs. LoadPlugins w (pluginsDir p) = Inr defs
                \<and> maybeReload w p
                    = p\<lparr>plugins := build_lenient w (prefix p) 0 defs,
                        lastMod := latestPluginsMTime w (pluginsDir p)\<rparr>))"
proof (intro conjI impI)
  assume a: "\<not> After (latestPluginsMTime w (pluginsDir p)) (lastMod p) \<or> isl (LoadPlugins w (pluginsDir p))"
  then show same: "maybeReload w p = p"
    by (auto simp: maybeReload_def Let_def split: sum.splits)
  then show "PluginCollect w now p =
              (case collect_from w now 0 (plugins p) of
                 Panics \<Rightarrow> Panics
               | Returns (ms, pls) \<Rightarrow> Returns (ms, None, p\<lparr>plugins := pls\<rparr>))"
    by (simp add: PluginCollect_def)
next
  assume b: "plugins (maybeReload w p) \<noteq> plugins p"
  then show "pluginsDir p \<noteq> []"
    by (auto simp: maybeReload_def)
  from b show "After (latestPluginsMTime w (pluginsDir p)) (lastMod p)"
    by (auto simp: maybeReload_def Let_def split: if_splits)
  from b show "\<exists>defs. LoadPlugins w (pluginsDir p) = Inr defs
                \<and> maybeReload w p
                    = p\<lparr>plugins := build_lenient w (prefix p) 0 defs,
                        lastMod := latestPluginsMTime w (pluginsDir p)\<rparr>"
    by (auto simp: maybeReload_def Let_def split: if_splits sum.splits)
qed

subsection \<open>Three states of the plugins directory\<close>

lemma Ext_rx_json: "Ext ''rx.json'' = ''.json''"
  by (simp add: Ext_def)

lemma stale_mtime: "latestPluginsMTime staleSys ''plugins'' = 5"
  by (simp add: latestPluginsMTime_def staleSys_def quietSys_def pluginsFolder_def Ext_rx_json
        After_def)

lemma broken_mtime: "latestPluginsMTime brokenSys ''plugins'' = 9"
  by (simp add: latestPluginsMTime_def brokenSys_def quietSys_def pluginsFolder_def Ext_rx_json
        After_def)

lemma broken_load: "LoadPlugins brokenSys ''plugins'' = Inl (PluginFileUnparsable ''rx.json'')"
  by (simp add: LoadPlugins_def brokenSys_def quietSys_def pluginsFolder_def Ext_rx_json
        bytesTrimSpace_def isSpace_def)

lemma edited_mtime: "latestPluginsMTime editedSys ''plugins'' = 9"
  by (simp add: latestPluginsMTime_def editedSys_def quietSys_def pluginsFolder_def Ext_rx_json
        After_def)

lemma edited_load: "LoadPlugins editedSys ''plugins'' = Inr [rxBytes\<lparr>IntervalSeconds := 30\<rparr>]"
  by (simp add: LoadPlugins_def editedSys_def quietSys_def pluginsFolder_def Ext_rx_json
        bytesTrimSpace_def isSpace_def)

lemma rxBytes30_valid: "validatePluginDefinition editedSys (rxBytes\<lparr>IntervalSeconds := 30\<rparr>) = None"
  by (simp add: validatePluginDefinition_def rxBytes_def metricRegex_net_rx_bytes
        check_command_def check_http_def check_file_def sourceCount_def blacklistedCommand_def
        Base_cat ToLower_def isASCII_def lowerASCII_def isUpperASCII_def blacklist_def
        word_sle_eq editedSys_def quietSys_def)

lemma edited_runtimes:
  "build_lenient editedSys ''metricsd_'' 0 [rxBytes\<lparr>IntervalSeconds := 30\<rparr>]
     = [rxRuntime\<lparr>def := rxBytes\<lparr>IntervalSeconds := 30\<rparr>, interval := 30 * Second\<rparr>]"
proof -
  have "normalizeParser editedSys (Parser (rxBytes\<lparr>IntervalSeconds := 30\<rparr>))
          = Inr \<lparr>mode = pluginParserNumber, regex = None, rawRegex = [], rawMode = pluginParserNumber\<rparr>"
    by (simp add: normalizeParser_def rxBytes_def)
  moreover have "buildClock editedSys 0 = 0"
    by (simp add: editedSys_def quietSys_def)
  moreover have "detectSource (rxBytes\<lparr>IntervalSeconds := 30\<rparr>) = pluginSourceCommand"
    by (simp add: detectSource_def rxBytes_def)
  moreover have "''metricsd_'' @ Metric (rxBytes\<lparr>IntervalSeconds := 30\<rparr>) = ''metricsd_net_rx_bytes''"
    by (simp add: rxBytes_def)
  moreover have "\<not> 0 <s TimeoutSeconds (rxBytes\<lparr>IntervalSeconds := 30\<rparr>)"
    by (simp add: rxBytes_def)
  ultimately show ?thesis
    using rxBytes30_valid by (simp add: buildRuntime_def rxRuntime_def)
qed

theorem reload_failure_keeps_runtimes_witness:
  "\<not> After (latestPluginsMTime staleSys (pluginsDir loadedCollector)) (lastMod loadedCollector)
   \<and> maybeReload staleSys loadedCollector = loadedCollector
   \<and> After (latestPluginsMTime brokenSys (pluginsDir loadedCollector)) (lastMod loadedCollector)
   \<and> isl (LoadPlugins brokenSys (pluginsDir loadedCollector))
   \<and> maybeReload brokenSys loadedCollector = loadedCollector
   \<and> plugins (maybeReload editedSys loadedCollector) \<noteq> plugins loadedCollector
   \<and> LoadPlugins editedSys (pluginsDir loadedCollector) = Inr [rxBytes\<lparr>IntervalSeconds := 30\<rparr>]
   \<and> maybeReload editedSys loadedCollector
       = loadedCollector\<lparr>plugins := [rxRuntime\<lparr>def := rxBytes\<lparr>IntervalSeconds := 30\<rparr>,
                                               interval := 30 * Second\<rparr>],
                         lastMod := 9\<rparr>"
proof -
  have dir: "pluginsDir loadedCollector = ''plugins''" and lm: "lastMod loadedCollector = 5"
    and pfx: "prefix loadedCollector = ''metricsd_''"
    by (simp_all add: loadedCollector_def)
  have s1: "\<not> After (latestPluginsMTime staleSys (pluginsDir loadedCollector)) (lastMod loadedCollector)"
    by (simp add: dir lm stale_mtime After_def)
  have s2: "maybeReload staleSys loadedCollector = loadedCollector"
    using reload_failure_keeps_runtimes [of staleSys loadedCollector 0] s1 by blast
  have b1: "After (latestPluginsMTime brokenSys (pluginsDir loadedCollector)) (lastMod loadedCollector)"
    by (simp add: dir lm broken_mtime After_def)
  have b2: "isl (LoadPlugins brokenSys (pluginsDir loadedCollector))"
    by (simp add: dir broken_load)
  have b3: "maybeReload brokenSys loadedCollector = loadedCollector"
    using reload_failure_keeps_runtimes [of brokenSys loadedCollector 0] b2 by blast
  have e0: "LoadPlugins editedSys (pluginsDir loadedCollector) = Inr [rxBytes\<lparr>IntervalSeconds := 30\<rparr>]"
    by (simp add: dir edited_load)
  have e1: "maybeReload editedSys loadedCollector
       = loadedCollector\<lparr>plugins := [rxRuntime\<lparr>def := rxBytes\<lparr>IntervalSeconds := 30\<rparr>,
                                               interval := 30 * Second\<rparr>],
                         lastMod := 9\<rparr>"
    by (simp add: maybeReload_def dir lm pfx edited_mtime edited_load After_def edited_runtimes
          del: build_lenient.simps)
  have e2: "plugins (maybeReload editedSys loadedCollector) \<noteq> plugins loadedCollector"
    by (simp add: e1) (simp add: loadedCollector_def rxRuntime_def rxBytes_def)
  show ?thesis
    using s1 s2 b1 b2 b3 e0 e1 e2 by blast
qed

section \<open>Errors of the two collectors\<close>

lemma normalizeParser_usable:
  assumes "normalizeParser w p = Inr pr"
  shows "parserUsable pr"
proof -
  define m where "m = (if Mode p = [] then pluginParserNumber else Mode p)"
  have np: "normalizeParser w p =
     (if m = pluginParserNumber
         then Inr \<lparr>mode = pluginParserNumber, regex = None, rawRegex = [], rawMode = m\<rparr>
         else if m = pluginParserRegex
         then (if Regex p = [] then Inl RegexRequired
               else (case regexpCompile w (Regex p) of
                       None \<Rightarrow> Inl RegexInvalid
                     | Some rx \<Rightarrow>
                         Inr \<lparr>mode = pluginParserRegex, regex = Some rx, rawRegex = Regex p,
                              rawMode = m\<rparr>))
         else Inl (ParserModeUnsupported m))"
    by (simp only: normalizeParser_def m_def Let_def)
  have ne: "pluginParserNumber \<noteq> pluginParserRegex"
    by (simp add: pluginParserNumber_def pluginParserRegex_def)
  show ?thesis
  proof (cases "m = pluginParserNumber")
    case True
    with assms np ne show ?thesis
      by (auto simp: parserUsable_def)
  next
    case False
    with assms np show ?thesis
      by (auto simp: parserUsable_def split: if_splits option.splits)
  qed
qed

lemma buildRuntime_usable: "buildRuntime w now d pfx = Inr rt \<Longrightarrow> parserUsable (parser rt)"
  by (auto simp: buildRuntime_def split: option.splits sum.splits
        dest: normalizeParser_usable)

lemma build_lenient_compiled: "parsersCompiled (build_lenient w pfx k defs)"
  by (induction defs arbitrary: k)
     (auto simp: parsersCompiled_def split: sum.splits dest: buildRuntime_usable)

lemma build_strict_compiled:
  "build_strict w pfx k defs = Inr rts \<Longrightarrow> parsersCompiled rts"
  by (induction defs arbitrary: k rts)
     (auto simp: parsersCompiled_def split: sum.splits dest: buildRuntime_usable)

lemma new_collector_compiled:
  "NewPluginCollector w pfx dir defs = Inr p \<Longrightarrow> parsersCompiled (plugins p)"
  by (auto simp: NewPluginCollector_def split: sum.splits dest: build_strict_compiled)

lemma maybeReload_compiled:
  "parsersCompiled (plugins p) \<Longrightarrow> parsersCompiled (plugins (maybeReload w p))"
  by (auto simp: maybeReload_def Let_def build_lenient_compiled split: sum.splits)

lemma parseValue_returns: "parserUsable pr \<Longrightarrow> parseValue w raw pr \<noteq> Panics"
  by (auto simp: parseValue_def parserUsable_def Let_def split: option.splits)

lemma execute_returns:
  assumes "parserUsable (parser pl)"
  shows "execute w i pl \<noteq> Panics"
proof -
  have pv: "\<And>raw. parseValue w raw (parser pl) \<noteq> Panics"
    using assms by (rule parseValue_returns)
  have c: "runCommand w i (Command (def pl)) (parser pl) \<noteq> Panics"
    by (simp add: runCommand_def pv split: option.split)
  have h: "runHTTP w i (HTTP (def pl)) (parser pl) \<noteq> Panics"
    by (simp add: runHTTP_def pv split: option.split httpResult.split)
  have f: "runFile w i (File (def pl)) (parser pl) \<noteq> Panics"
    by (simp add: runFile_def pv split: option.split)
  show ?thesis
    using c h f by (simp add: execute_def)
qed

lemma collect_from_returns:
  "parsersCompiled pls \<Longrightarrow>
     \<exists>ms pls'. collect_from w now i pls = Returns (ms, pls') \<and> parsersCompiled pls'"
proof (induction pls arbitrary: i)
  case Nil
  then show ?case by (simp add: parsersCompiled_def)
next
  case (Cons pl pls)
  then have u: "parserUsable (parser pl)" and c: "parsersCompiled pls"
    by (simp_all add: parsersCompiled_def)
  from Cons.IH [OF c] obtain ms pls' where
    tl: "collect_from w now (Suc i) pls = Returns (ms, pls')" and c': "parsersCompiled pls'"
    by blast
  from execute_returns [OF u] obtain r where ex: "execute w i pl = Returns r"
    by (cases "execute w i pl") simp_all
  have c1: "parsersCompiled (pl # pls')"
    and c2: "parsersCompiled (pl\<lparr>nextRun := Add now (interval pl)\<rparr> # pls')"
    using u c' by (simp_all add: parsersCompiled_def)
  show ?case
  proof (cases "Before now (nextRun pl)")
    case True
    then show ?thesis using tl c1 by simp
  next
    case False
    then show ?thesis using tl c2 ex by (cases r) simp_all
  qed
qed

text \<open>
  C9. The endpoint scraper's \<open>Collect\<close> returns a nil error. The plugin collector's \<open>Collect\<close>
  never returns an error either; it returns (rather than panics on a nil pattern) whenever
  every runtime in regex mode holds a compiled pattern, which is so for every collector
  \<open>NewPluginCollector\<close> builds and stays so after \<open>Collect\<close>.
\<close>

theorem collectors_return_nil_error:
  "snd (HTTPCollect w c) = None
   \<and> (\<forall>ms e p'. PluginCollect w now p = Returns (ms, e, p') \<longrightarrow> e = None)
   \<and> (parsersCompiled (plugins p) \<longrightarrow>
        (\<exists>ms p'. PluginCollect w now p = Returns (ms, None, p') \<and> parsersCompiled (plugins p')))
   \<and> (\<forall>pfx dir defs p0. NewPluginCollector w pfx dir defs = Inr p0 \<longrightarrow>
          parsersCompiled (plugins p0))"
proof (intro conjI allI impI)
  show "snd (HTTPCollect w c) = None"
    by (simp add: HTTPCollect_def)
next
  fix ms e p'
  assume "PluginCollect w now p = Returns (ms, e, p')"
  then show "e = None"
    by (auto simp: PluginCollect_def Let_def split: go.splits prod.splits)
next
  assume "parsersCompiled (plugins p)"
  then have "parsersCompiled (plugins (maybeReload w p))"
    by (rule maybeReload_compiled)
  from collect_from_returns [OF this, of w now 0]
  show "\<exists>ms p'. PluginCollect w now p = Returns (ms, None, p') \<and> parsersCompiled (plugins p')"
    by (auto simp: PluginCollect_def Let_def)
next
  fix pfx dir defs p0
  assume "NewPluginCollector w pfx dir defs = Inr p0"
  then show "parsersCompiled (plugins p0)"
    by (rule new_collector_compiled)
qed

lemma quiet_reload: "maybeReload quietSys loadedCollector = loadedCollector"
  by (simp add: maybeReload_def latestPluginsMTime_def quietSys_def loadedCollector_def After_def)

lemma quiet_execute: "execute quietSys 0 rxRuntime = Returns (Inl CommandFailed)"
  by (simp add: execute_def rxRuntime_def runCommand_def rxBytes_def quietSys_def
        pluginSourceCommand_def)

lemma Add_15s: "Add 100 (15 * Second) = 15000000100"
  by (simp add: Add_def Second_def)

lemma quiet_collect:
  "PluginCollect quietSys 100 loadedCollector
     = Returns ([], None, loadedCollector\<lparr>plugins := [rxRuntime\<lparr>nextRun := 15000000100\<rparr>]\<rparr>)"
proof -
  have "collect_from quietSys 100 0 [rxRuntime]
          = Returns ([], [rxRuntime\<lparr>nextRun := Add 100 (interval rxRuntime)\<rparr>])"
    using quiet_execute by (simp add: Before_def) (simp add: rxRuntime_def)
  moreover have "interval rxRuntime = 15 * Second"
    by (simp add: rxRuntime_def)
  moreover have "plugins loadedCollector = [rxRuntime]"
    by (simp add: loadedCollector_def)
  ultimately show ?thesis
    by (simp add: PluginCollect_def quiet_reload Add_15s)
qed

theorem collectors_return_nil_error_witness:
  "parsersCompiled (plugins loadedCollector)
   \<and> execute quietSys 0 rxRuntime = Returns (Inl CommandFailed)
   \<and> PluginCollect quietSys 100 loadedCollector
       = Returns ([], None, loadedCollector\<lparr>plugins := [rxRuntime\<lparr>nextRun := 15000000100\<rparr>]\<rparr>)
   \<and> scrapeEndpoint quietSys 0 (hd (endpoints appEndpoints)) = Inl RequestFailed
   \<and> HTTPCollect quietSys appEndpoints = ([], None)"
proof -
  have pc: "parsersCompiled (plugins loadedCollector)"
    by (simp add: parsersCompiled_def parserUsable_def loadedCollector_def rxRuntime_def
          pluginParserNumber_def pluginParserRegex_def)
  note inst = collectors_return_nil_error [of quietSys appEndpoints 100 loadedCollector]
  have sc: "scrapeEndpoint quietSys 0 (hd (endpoints appEndpoints)) = Inl RequestFailed"
    by (simp add: scrapeEndpoint_def appEndpoints_def quietSys_def)
  then have "fst (HTTPCollect quietSys appEndpoints) = []"
    by (simp add: HTTPCollect_def appEndpoints_def)
  moreover have "snd (HTTPCollect quietSys appEndpoints) = None"
    using inst by blast
  ultimately have h: "HTTPCollect quietSys appEndpoints = ([], None)"
    by (simp add: prod_eq_iff)
  from inst pc obtain ms p' where "PluginCollect quietSys 100 loadedCollector = Returns (ms, None, p')"
    by blast
  with quiet_collect have "PluginCollect quietSys 100 loadedCollector
       = Returns ([], None, loadedCollector\<lparr>plugins := [rxRuntime\<lparr>nextRun := 15000000100\<rparr>]\<rparr>)"
    by simp
  then show ?thesis
    using pc quiet_execute sc h by blast
qed

section \<open>Scheduling\<close>

text \<open>An interval that does not overflow keeps the schedule moving forward.\<close>

lemma interval_in_range:
  assumes "0 <s s" and "sint s \<le> 9223372036"
  shows "0 \<le> sint (s * Second)" and "sint (s * Second) = sint s * 1000000000"
proof -
  have pos: "0 < sint s"
    using assms(1) by (simp add: word_sless_alt)
  have "sint (s * Second) = signed_take_bit 63 (sint s * sint Second)"
    by (simp add: sint_word_ariths)
  moreover have "sint Second = 1000000000"
    by (simp add: Second_def)
  moreover have "signed_take_bit 63 (sint s * 1000000000) = sint s * 1000000000"
    using pos assms(2) by (intro signed_take_bit_int_eq_self) simp_all
  ultimately show "sint (s * Second) = sint s * 1000000000"
    by simp
  then show "0 \<le> sint (s * Second)"
    using pos by simp
qed

lemma collect_from_forward:
  assumes "collect_from w now i pls = Returns (ms, pls')" and "k < length pls"
    and "0 \<le> sint (interval (pls ! k))"
  shows "nextRun (pls ! k) \<le> nextRun (pls' ! k)"
proof -
  from collect_from_shape [OF assms(1)] assms(2)
  have "(Before now (nextRun (pls ! k)) \<and> pls' ! k = pls ! k)
        \<or> (\<not> Before now (nextRun (pls ! k))
            \<and> pls' ! k = (pls ! k)\<lparr>nextRun := Add now (interval (pls ! k))\<rparr>)"
    by blast
  then show ?thesis
    using assms(3) by (auto simp: Before_def Add_def)
qed

lemma failed_execution_rearms:
  assumes "\<not> Before now (nextRun pl)" and "execute w i pl = Returns (Inl err)"
  shows "collect_from w now i [pl] = Returns ([], [pl\<lparr>nextRun := Add now (interval pl)\<rparr>])"
  using assms by simp

lemma rxBytesRarely_valid: "validatePluginDefinition quietSys rxBytesRarely = None"
  by (simp add: validatePluginDefinition_def rxBytesRarely_def rxBytes_def metricRegex_net_rx_bytes
        check_command_def check_http_def check_file_def sourceCount_def blacklistedCommand_def
        Base_cat ToLower_def isASCII_def lowerASCII_def isUpperASCII_def blacklist_def
        word_sle_eq quietSys_def)

lemma rxBytesRarely_runtime:
  "buildRuntime quietSys 0 rxBytesRarely ''metricsd_''
     = Inr (rxRuntime\<lparr>def := rxBytesRarely, interval := 9223372037 * Second\<rparr>)"
proof -
  have "normalizeParser quietSys (Parser rxBytesRarely)
          = Inr \<lparr>mode = pluginParserNumber, regex = None, rawRegex = [], rawMode = pluginParserNumber\<rparr>"
    by (simp add: normalizeParser_def rxBytes_def rxBytesRarely_def)
  moreover have "detectSource rxBytesRarely = pluginSourceCommand"
    by (simp add: detectSource_def rxBytes_def rxBytesRarely_def)
  moreover have "''metricsd_'' @ Metric rxBytesRarely = ''metricsd_net_rx_bytes''"
    by (simp add: rxBytes_def rxBytesRarely_def)
  moreover have "\<not> 0 <s TimeoutSeconds rxBytesRarely"
    by (simp add: rxBytes_def rxBytesRarely_def)
  moreover have "IntervalSeconds rxBytesRarely = 9223372037"
    by (simp add: rxBytesRarely_def)
  ultimately show ?thesis
    using rxBytesRarely_valid by (simp add: buildRuntime_def rxRuntime_def)
qed

text \<open>
  C3, at the input where the code departs from it. The definition \<open>rxBytesRarely\<close> passes
  validation. Its interval, 9223372037 seconds, times \<open>time.Second\<close> wraps around in 64 bits
  to a negative duration. The runtime is first due at time 0; a \<open>Collect\<close> at time 1000 finds
  it due, its command fails, it contributes no metric, and its next-due time becomes 1000
  plus the interval, which lies before 0.
\<close>

theorem overflowing_interval_moves_schedule_back:
  "validatePluginDefinition quietSys rxBytesRarely = None
   \<and> NewPluginCollector quietSys ''metricsd_'' ''plugins'' [rxBytesRarely]
       = Inr (loadedCollector\<lparr>plugins := [rxRuntime\<lparr>def := rxBytesRarely,
                                                       interval := 9223372037 * Second\<rparr>],
                               lastMod := 0\<rparr>)
   \<and> nextRun (rxRuntime\<lparr>def := rxBytesRarely, interval := 9223372037 * Second\<rparr>) = 0
   \<and> sint (9223372037 * Second) = - 9223372036709551616
   \<and> PluginCollect quietSys 1000
        (loadedCollector\<lparr>plugins := [rxRuntime\<lparr>def := rxBytesRarely,
                                                interval := 9223372037 * Second\<rparr>],
                          lastMod := 0\<rparr>)
       = Returns ([], None,
           loadedCollector\<lparr>plugins := [rxRuntime\<lparr>def := rxBytesRarely,
                                                   interval := 9223372037 * Second,
                                                   nextRun := - 9223372036709550616\<rparr>],
                             lastMod := 0\<rparr>)"
proof -
  let ?rt = "rxRuntime\<lparr>def := rxBytesRarely, interval := 9223372037 * Second\<rparr>"
  let ?p = "loadedCollector\<lparr>plugins := [?rt], lastMod := 0\<rparr>"
  have new: "NewPluginCollector quietSys ''metricsd_'' ''plugins'' [rxBytesRarely] = Inr ?p"
  proof -
    have "buildClock quietSys 0 = 0"
      by (simp add: quietSys_def)
    moreover have "latestPluginsMTime quietSys ''plugins'' = 0"
      by (simp add: latestPluginsMTime_def quietSys_def)
    ultimately show ?thesis
      using rxBytesRarely_runtime by (simp add: NewPluginCollector_def loadedCollector_def)
  qed
  have nr: "nextRun ?rt = 0"
    by (simp add: rxRuntime_def)
  have ov: "sint (9223372037 * Second) = - 9223372036709551616"
    by (simp add: Second_def)
  have rel: "maybeReload quietSys ?p = ?p"
    by (simp add: maybeReload_def latestPluginsMTime_def quietSys_def loadedCollector_def After_def)
  have ex: "execute quietSys 0 ?rt = Returns (Inl CommandFailed)"
    by (simp add: execute_def rxRuntime_def runCommand_def rxBytes_def rxBytesRarely_def
          quietSys_def pluginSourceCommand_def)
  have due: "\<not> Before 1000 (nextRun ?rt)"
    by (simp add: nr Before_def)
  have "collect_from quietSys 1000 0 [?rt]
          = Returns ([], [?rt\<lparr>nextRun := Add 1000 (interval ?rt)\<rparr>])"
    using due ex by (rule failed_execution_rearms)
  moreover have "Add 1000 (interval ?rt) = - 9223372036709550616"
    by (simp add: Add_def ov)
  ultimately have loop: "collect_from quietSys 1000 0 [?rt]
          = Returns ([], [?rt\<lparr>nextRun := - 9223372036709550616\<rparr>])"
    by simp
  have col: "PluginCollect quietSys 1000 ?p
       = Returns ([], None, loadedCollector\<lparr>plugins := [?rt\<lparr>nextRun := - 9223372036709550616\<rparr>],
                                            lastMod := 0\<rparr>)"
    using loop by (simp add: PluginCollect_def rel)
  show ?thesis
    using rxBytesRarely_valid new nr ov col by blast
qed

section \<open>The metric-name pattern\<close>

lemma code_eq_iff: "((of_char c :: nat) = of_char d) = (c = d)"
  by simp

lemma head_ranges: "in_ranges c name_head_ranges = nameStart c"
proof -
  have u: "((of_char c :: nat) = 95) = (c = CHR ''_'')"
    using code_eq_iff [of c "CHR ''_''"] by simp
  have v: "((of_char c :: nat) = 58) = (c = CHR '':'')"
    using code_eq_iff [of c "CHR '':''"] by simp
  have "in_ranges c name_head_ranges
        = ((97 \<le> (of_char c :: nat) \<and> (of_char c :: nat) \<le> 122)
           \<or> (65 \<le> (of_char c :: nat) \<and> (of_char c :: nat) \<le> 90)
           \<or> (of_char c :: nat) = 95 \<or> (of_char c :: nat) = 58)"
    by (auto simp: in_ranges_def name_head_ranges_def)
  then show ?thesis
    unfolding nameStart_def isLetter_def u v by blast
qed

lemma tail_ranges: "in_ranges c name_tail_ranges = nameChar c"
proof -
  have u: "((of_char c :: nat) = 95) = (c = CHR ''_'')"
    using code_eq_iff [of c "CHR ''_''"] by simp
  have v: "((of_char c :: nat) = 58) = (c = CHR '':'')"
    using code_eq_iff [of c "CHR '':''"] by simp
  have "in_ranges c name_tail_ranges
        = ((97 \<le> (of_char c :: nat) \<and> (of_char c :: nat) \<le> 122)
           \<or> (65 \<le> (of_char c :: nat) \<and> (of_char c :: nat) \<le> 90)
           \<or> (48 \<le> (of_char c :: nat) \<and> (of_char c :: nat) \<le> 57)
           \<or> (of_char c :: nat) = 95 \<or> (of_char c :: nat) = 58)"
    by (auto simp: in_ranges_def name_tail_ranges_def)
  then show ?thesis
    unfolding nameChar_def nameStart_def isLetter_def isDigit_def u v by blast
qed

text \<open>The search fails exactly when the pattern matches at no offset.\<close>

lemma first_match_None_iff:
  "first_match r off s = None \<longleftrightarrow> (\<forall>k \<le> length s. run r (off + k, drop k s, []) = [])"
proof (induction s arbitrary: off)
  case Nil
  show ?case by (simp split: list.split)
next
  case (Cons c cs)
  have "(\<forall>k \<le> length (c # cs). run r (off + k, drop k (c # cs), []) = [])
        \<longleftrightarrow> run r (off, c # cs, []) = []
            \<and> (\<forall>k \<le> length cs. run r (Suc off + k, drop k cs, []) = [])"
    (is "?all \<longleftrightarrow> ?hd \<and> ?tl")
  proof
    assume a: ?all
    have ?hd using a [rule_format, of 0] by simp
    moreover have ?tl
    proof (intro allI impI)
      fix k assume "k \<le> length cs"
      then show "run r (Suc off + k, drop k cs, []) = []"
        using a [rule_format, of "Suc k"] by simp
    qed
    ultimately show "?hd \<and> ?tl" ..
  next
    assume b: "?hd \<and> ?tl"
    show ?all
    proof (intro allI impI)
      fix k assume k: "k \<le> length (c # cs)"
      show "run r (off + k, drop k (c # cs), []) = []"
      proof (cases k)
        case 0
        then show ?thesis using b by simp
      next
        case (Suc j)
        then show ?thesis using b k by simp
      qed
    qed
  qed
  then show ?case
    using Cons.IH [of "Suc off"] by (simp split: list.split)
qed

text \<open>Repeating a one-byte step reaches every prefix of the longest run of bytes the step
  accepts.\<close>

lemma iterate_eat_set:
  "length r \<le> n \<Longrightarrow>
     set (iterate (eat P) n (off, r, caps))
       = {(off + j, drop j r, caps) | j. j \<le> length (takeWhile P r)}"
proof (induction n arbitrary: off r)
  case 0
  then show ?case by simp
next
  case (Suc n)
  show ?case
  proof (cases r)
    case Nil
    then show ?thesis by (simp add: eat_def)
  next
    case (Cons x xs)
    show ?thesis
    proof (cases "P x")
      case False
      then show ?thesis using Cons by (simp add: eat_def)
    next
      case True
      have len: "length xs \<le> n" using Suc.prems Cons by simp
      have "set (iterate (eat P) (Suc n) (off, r, caps))
              = set (iterate (eat P) n (Suc off, xs, caps)) \<union> {(off, r, caps)}"
        using Cons True by (simp add: eat_def)
      also have "\<dots> = {(Suc off + j, drop j xs, caps) | j. j \<le> length (takeWhile P xs)}
                      \<union> {(off, r, caps)}"
        using Suc.IH [OF len] by simp
      also have "\<dots> = {(off + j, drop j r, caps) | j. j \<le> length (takeWhile P r)}"
      proof (intro set_eqI iffI)
        fix st
        assume "st \<in> {(Suc off + j, drop j xs, caps) | j. j \<le> length (takeWhile P xs)}
                      \<union> {(off, r, caps)}"
        then consider j where "st = (Suc off + j, drop j xs, caps)" "j \<le> length (takeWhile P xs)"
          | "st = (off, r, caps)"
          by blast
        then show "st \<in> {(off + j, drop j r, caps) | j. j \<le> length (takeWhile P r)}"
        proof cases
          case 1
          then have "st = (off + Suc j, drop (Suc j) r, caps)" "Suc j \<le> length (takeWhile P r)"
            using Cons True by simp_all
          then show ?thesis by blast
        next
          case 2
          then have "st = (off + 0, drop 0 r, caps)" by simp
          then show ?thesis by blast
        qed
      next
        fix st
        assume "st \<in> {(off + j, drop j r, caps) | j. j \<le> length (takeWhile P r)}"
        then obtain j where j: "st = (off + j, drop j r, caps)" "j \<le> length (takeWhile P r)"
          by blast
        show "st \<in> {(Suc off + j, drop j xs, caps) | j. j \<le> length (takeWhile P xs)}
                      \<union> {(off, r, caps)}"
        proof (cases j)
          case 0
          then show ?thesis using j by simp
        next
          case (Suc i)
          then have "st = (Suc off + i, drop i xs, caps)" "i \<le> length (takeWhile P xs)"
            using j Cons True by simp_all
          then show ?thesis by blast
        qed
      qed
      finally show ?thesis .
    qed
  qed
qed

lemma star_class_reaches_end:
  "(\<exists>st \<in> set (run (ReStar (ReCls rs)) (off, r, caps)). fst (snd st) = [])
     \<longleftrightarrow> list_all (\<lambda>x. in_ranges x rs) r"
proof -
  let ?P = "\<lambda>x. in_ranges x rs"
  have eq: "run (ReCls rs) = eat ?P"
    by (rule ext) simp
  have "(\<exists>st \<in> set (run (ReStar (ReCls rs)) (off, r, caps)). fst (snd st) = [])
        \<longleftrightarrow> (\<exists>j \<le> length (takeWhile ?P r). drop j r = [])"
    by (auto simp: eq iterate_eat_set)
  also have "\<dots> \<longleftrightarrow> length (takeWhile ?P r) = length r"
  proof
    assume "\<exists>j \<le> length (takeWhile ?P r). drop j r = []"
    then obtain j where "j \<le> length (takeWhile ?P r)" "length r \<le> j" by auto
    moreover have "length (takeWhile ?P r) \<le> length r" by (rule length_takeWhile_le)
    ultimately show "length (takeWhile ?P r) = length r" by simp
  next
    assume "length (takeWhile ?P r) = length r"
    then show "\<exists>j \<le> length (takeWhile ?P r). drop j r = []"
      by (intro exI [of _ "length r"]) simp
  qed
  also have "\<dots> \<longleftrightarrow> list_all ?P r"
  proof
    assume a: "length (takeWhile ?P r) = length r"
    have "takeWhile ?P r @ dropWhile ?P r = r" by simp
    with a have "dropWhile ?P r = []"
      by (metis append_eq_conv_conj drop_all order_refl)
    then show "list_all ?P r"
      by (simp add: list_all_iff)
  next
    assume "list_all ?P r"
    then have "takeWhile ?P r = r"
      unfolding list_all_iff by (simp only: takeWhile_eq_all_conv)
    then show "length (takeWhile ?P r) = length r" by (rule arg_cong)
  qed
  finally show ?thesis .
qed

text \<open>The compiled pattern accepts exactly the strings of the metric-name grammar.\<close>

lemma metricRegex_grammar: "MatchString metricRegex s = metricNameGrammar s"
proof -
  let ?tail = "ReSeq (ReStar (ReCls name_tail_ranges)) ReEol"
  let ?body = "ReSeq (ReCls name_head_ranges) ?tail"
  have anchored: "run metricRegex (k, t, []) = (if k = 0 then run ?body (0, t, []) else [])" for k t
    by (simp add: metricRegex_def)
  have tail: "run ?tail (off, r, caps) \<noteq> [] \<longleftrightarrow> list_all nameChar r" for off r caps
  proof -
    have "run ?tail (off, r, caps) \<noteq> []
          \<longleftrightarrow> (\<exists>st \<in> set (run (ReStar (ReCls name_tail_ranges)) (off, r, caps)). fst (snd st) = [])"
      by (auto simp del: run.simps(6))
    then show ?thesis
      by (simp only: star_class_reaches_end tail_ranges)
  qed
  have body: "run ?body (0, s, []) \<noteq> [] \<longleftrightarrow> metricNameGrammar s"
  proof (cases s)
    case Nil
    then show ?thesis by (simp add: eat_def metricNameGrammar_def)
  next
    case (Cons c cs)
    have "run ?body (0, c # cs, [])
            = (if nameStart c then run ?tail (Suc 0, cs, []) else [])"
      by (simp add: eat_def head_ranges del: run.simps(6))
    then show ?thesis
      using tail [of "Suc 0" cs "[]"] Cons by (simp add: metricNameGrammar_def del: run.simps)
  qed
  have "MatchString metricRegex s \<longleftrightarrow> (\<exists>k \<le> length s. run metricRegex (0 + k, drop k s, []) \<noteq> [])"
    unfolding MatchString_def first_match_None_iff by blast
  also have "\<dots> \<longleftrightarrow> run ?body (0, s, []) \<noteq> []"
    by (auto simp: anchored)
  finally show ?thesis
    using body by simp
qed

section \<open>Validation\<close>

lemma positive_interval: "(\<not> x \<le>s 0) = (0 <s (x :: 64 word))"
  by (simp add: word_sle_eq word_sless_alt) linarith

lemma checks_pass_iff:
  "(check_command w d = None \<and> check_http d = None \<and> check_file d = None) = sourceWellFormed w d"
  by (simp add: check_command_def check_http_def check_file_def sourceWellFormed_def
        split: option.split)

lemma sourceCount_one: "(sourceCount d \<noteq> 0 \<and> \<not> 1 < sourceCount d) = (sourceCount d = 1)"
  by auto

lemma validate_iff:
  "(validatePluginDefinition w d = None) = (claimedAcceptance d \<and> sourceWellFormed w d)"
proof -
  have "(validatePluginDefinition w d = None)
        = (PluginDefinition.Name d \<noteq> [] \<and> Metric d \<noteq> [] \<and> MatchString metricRegex (Metric d)
           \<and> (MetricType d = ''gauge'' \<or> MetricType d = ''counter'')
           \<and> \<not> IntervalSeconds d \<le>s 0
           \<and> (check_command w d = None \<and> check_http d = None \<and> check_file d = None)
           \<and> (sourceCount d \<noteq> 0 \<and> \<not> 1 < sourceCount d))"
    by (simp add: validatePluginDefinition_def split: option.split)
  then show ?thesis
    unfolding checks_pass_iff sourceCount_one positive_interval metricRegex_grammar
      claimedAcceptance_def
    by blast
qed

text \<open>
  C1 as stated fails: the HTTP probe without a URL has a name, a metric in the grammar, the
  type \<open>counter\<close>, a positive interval and exactly one source, and validation rejects it.
\<close>

theorem url_less_probe_counterexample:
  "claimedAcceptance urlLessProbe
   \<and> validatePluginDefinition quietSys urlLessProbe = Some (HTTPUrlRequired ''rx_bytes'')"
proof -
  have g: "metricNameGrammar ''net_rx_bytes''"
    using metricRegex_net_rx_bytes by (simp only: metricRegex_grammar)
  have a: "claimedAcceptance urlLessProbe"
    using g by (simp add: claimedAcceptance_def urlLessProbe_def rxBytes_def sourceCount_def
          word_sless_alt)
  have b: "validatePluginDefinition quietSys urlLessProbe = Some (HTTPUrlRequired ''rx_bytes'')"
    by (simp add: validatePluginDefinition_def urlLessProbe_def rxBytes_def
          metricRegex_net_rx_bytes check_command_def check_http_def word_sle_eq)
  show ?thesis
    using a b by blast
qed

text \<open>
  C1, amended. Validation accepts a definition if and only if its name and metric are
  non-empty, its metric matches the grammar \<open>^[a-zA-Z_:][a-zA-Z0-9_:]*$\<close>, its type is
  \<open>gauge\<close> or \<open>counter\<close>, its interval is strictly positive, exactly one of the three sources
  is set, and that source is well formed: a command has a non-empty argument vector whose
  executable is not on the deny-list, an HTTP source a non-empty URL, a file source a
  non-empty path.
\<close>

theorem validation_accepts_iff:
  "(validatePluginDefinition w d = None)
     = (PluginDefinition.Name d \<noteq> [] \<and> Metric d \<noteq> [] \<and> metricNameGrammar (Metric d)
        \<and> (MetricType d = ''gauge'' \<or> MetricType d = ''counter'')
        \<and> 0 <s IntervalSeconds d
        \<and> sourceCount d = 1
        \<and> sourceWellFormed w d)"
  using validate_iff [of w d] by (simp add: claimedAcceptance_def)

theorem validation_accepts_iff_witness:
  "validatePluginDefinition quietSys rxBytes = None
   \<and> metricNameGrammar (Metric rxBytes) \<and> sourceCount rxBytes = 1
   \<and> sourceWellFormed quietSys rxBytes
   \<and> validatePluginDefinition quietSys (rxBytes\<lparr>Metric := ''9lives''\<rparr>) \<noteq> None
   \<and> \<not> metricNameGrammar ''9lives''"
proof -
  have ok: "validatePluginDefinition quietSys rxBytes = None"
    by (rule rxBytes_valid)
  have no: "\<not> metricNameGrammar ''9lives''"
    by (simp add: metricNameGrammar_def nameStart_def isLetter_def)
  show ?thesis
    using validation_accepts_iff [of quietSys rxBytes]
          validation_accepts_iff [of quietSys "rxBytes\<lparr>Metric := ''9lives''\<rparr>"] ok no
    by simp
qed

section \<open>The deny-list\<close>

text \<open>The base name of a path: whatever directories come before the last element and
  whatever slashes come after it are dropped.\<close>

lemma dropWhile_replicate_append:
  "P c \<Longrightarrow> dropWhile P (replicate k c @ xs) = dropWhile P xs"
  by (induction k) simp_all

lemma Base_strips_directories:
  assumes "name \<noteq> []" and "CHR ''/'' \<notin> set name" and "dir = [] \<or> last dir = CHR ''/''"
  shows "Base (dir @ name @ replicate k (CHR ''/'')) = name"
proof -
  let ?sl = "\<lambda>c. c = CHR ''/''"
  let ?path = "dir @ name @ replicate k (CHR ''/'')"
  have ne: "?path \<noteq> []" using assms(1) by simp
  have hdn: "\<not> ?sl (hd (rev name))"
  proof -
    have "hd (rev name) = last name" by (rule hd_rev)
    moreover have "last name \<in> set name" using assms(1) by (rule last_in_set)
    ultimately show ?thesis using assms(2) by auto
  qed
  have "rev ?path = replicate k (CHR ''/'') @ rev name @ rev dir"
    by simp
  then have "dropWhile ?sl (rev ?path) = dropWhile ?sl (rev name @ rev dir)"
    by (simp add: dropWhile_replicate_append)
  also have "\<dots> = rev name @ rev dir"
    using assms(1) hdn by (cases "rev name") simp_all
  finally have stripped: "rev (dropWhile ?sl (rev ?path)) = dir @ name"
    by simp
  have all: "\<And>x. x \<in> set (rev name) \<Longrightarrow> x \<noteq> CHR ''/''"
    using assms(2) by auto
  have "takeWhile (\<lambda>c. c \<noteq> CHR ''/'') (rev name @ rev dir) = rev name"
  proof (cases "dir = []")
    case True
    then show ?thesis using all by (simp add: takeWhile_eq_all_conv)
  next
    case False
    with assms(3) have "hd (rev dir) = CHR ''/''"
      by (simp add: hd_rev)
    moreover from False obtain x xs where "rev dir = x # xs"
      by (cases "rev dir") simp_all
    ultimately have "takeWhile (\<lambda>c. c \<noteq> CHR ''/'') (rev dir) = []"
      by simp
    then show ?thesis
      using takeWhile_append2 [of "rev name" "\<lambda>c. c \<noteq> CHR ''/''" "rev dir", OF all]
      by simp
  qed
  then have "takeWhile (\<lambda>c. c \<noteq> CHR ''/'') (rev (dir @ name)) = rev name"
    by simp
  then show ?thesis
    using ne assms(1) by (simp add: Base_def stripped Let_def del: rev_append)
qed

lemma lowerASCII_isASCII: "isASCII (lowerASCII c) \<Longrightarrow> isASCII c"
  by (auto simp: lowerASCII_def isASCII_def isUpperASCII_def split: if_splits)

lemma blacklist_words:
  assumes "b \<in> set blacklist"
  shows "b \<noteq> []" and "list_all isASCII b"
  using assms by (auto simp: blacklist_def isASCII_def)

lemma ToLower_of_denied:
  assumes "map lowerASCII name \<in> set blacklist"
  shows "ToLower uni name = map lowerASCII name" and "name \<noteq> []"
proof -
  have "list_all isASCII (map lowerASCII name)"
    using assms by (rule blacklist_words)
  then have "list_all isASCII name"
    by (simp add: list_all_iff lowerASCII_isASCII)
  then show "ToLower uni name = map lowerASCII name"
    by (simp add: ToLower_def)
  show "name \<noteq> []"
    using blacklist_words(1) [OF assms] by auto
qed

lemma blacklisted_rejected:
  assumes "Command d = Some (exe # args)" and "blacklistedCommand w exe"
  shows "validatePluginDefinition w d \<noteq> None"
  using assms by (simp add: validatePluginDefinition_def check_command_def)

text \<open>
  C6. A definition with a command source is rejected whenever the executable is any directory
  prefix, followed by a name without a slash that is one of \<open>rm\<close>, \<open>sudo\<close>, \<open>mv\<close>, \<open>cp\<close>,
  \<open>shutdown\<close>, \<open>reboot\<close>, \<open>halt\<close>, \<open>init\<close> up to the case of its letters, followed by any number
  of trailing slashes; whatever else the definition holds.
\<close>

theorem denied_executable_rejected:
  assumes "Command d = Some (exe # args)"
    and "exe = dir @ name @ replicate k (CHR ''/'')"
    and "dir = [] \<or> last dir = CHR ''/''"
    and "CHR ''/'' \<notin> set name"
    and "map lowerASCII name \<in> set blacklist"
  shows "blacklistedCommand w exe \<and> validatePluginDefinition w d \<noteq> None"
proof -
  have low: "ToLower (unicodeToLower w) name = map lowerASCII name" and ne: "name \<noteq> []"
    using assms(5) by (rule ToLower_of_denied)+
  have "Base exe = name"
    unfolding assms(2) using ne assms(4) assms(3) by (rule Base_strips_directories)
  then have b: "blacklistedCommand w exe"
    using low assms(5) by (simp add: blacklistedCommand_def)
  then show ?thesis
    using blacklisted_rejected [OF assms(1)] by blast
qed

theorem denied_executable_rejected_witness:
  "Command sudoProbe = Some [''/usr/local/bin/SuDo'', ''reboot'']
   \<and> ''/usr/local/bin/SuDo'' = ''/usr/local/bin/'' @ ''SuDo'' @ replicate 0 (CHR ''/'')
   \<and> last ''/usr/local/bin/'' = CHR ''/''
   \<and> CHR ''/'' \<notin> set ''SuDo''
   \<and> map lowerASCII ''SuDo'' = ''sudo''
   \<and> ''sudo'' \<in> set blacklist
   \<and> blacklistedCommand quietSys ''/usr/local/bin/SuDo''
   \<and> validatePluginDefinition quietSys sudoProbe \<noteq> None"
proof -
  have a: "Command sudoProbe = Some (''/usr/local/bin/SuDo'' # [''reboot''])"
    by (simp add: sudoProbe_def)
  have b: "''/usr/local/bin/SuDo'' = ''/usr/local/bin/'' @ ''SuDo'' @ replicate 0 (CHR ''/'')"
    by simp
  have c: "''/usr/local/bin/'' = [] \<or> last ''/usr/local/bin/'' = CHR ''/''"
    by simp
  have d: "CHR ''/'' \<notin> set ''SuDo''"
    by simp
  have l: "map lowerASCII ''SuDo'' = ''sudo''"
    by (simp add: lowerASCII_def isUpperASCII_def char_of_def bit_Suc_0_iff)
  have m: "''sudo'' \<in> set blacklist"
    by (simp add: blacklist_def)
  have e: "map lowerASCII ''SuDo'' \<in> set blacklist"
    using l m by simp
  have a': "Command sudoProbe = Some [''/usr/local/bin/SuDo'', ''reboot'']"
    by (simp add: sudoProbe_def)
  have c': "last ''/usr/local/bin/'' = CHR ''/''"
    by simp
  note r = denied_executable_rejected [OF a b c d e, of quietSys]
  show ?thesis
    using r a' b c' d l m by blast
qed

section \<open>Parsing a value in regex mode\<close>









section \<open>Parsing the exposition format\<close>

lemmas class_eval = eat_def in_ranges_def name_head_ranges_def name_tail_ranges_def
  cls_space_def cls_digit_def cls_sign_def

lemma scan_example: "scanLines expositionBody = [typeLine, sampleLine]"
  by (simp add: scanLines_def expositionBody_def typeLine_def sampleLine_def dropCR_def)

lemma trim_typeLine: "TrimSpace typeLine = typeLine"
  by (simp add: TrimSpace_def typeLine_def unicode_spaces_def HasPrefix_def)

lemma trim_sampleLine: "TrimSpace sampleLine = sampleLine"
  by (simp add: TrimSpace_def sampleLine_def unicode_spaces_def HasPrefix_def)

lemma typeLine_is_directive:
  "typeLine \<noteq> []" "HasPrefix typeLine ''# TYPE ''"
  "Fields typeLine = [''#'', ''TYPE'', ''http_requests'', ''counter'']"
  by (simp_all add: typeLine_def HasPrefix_def Fields_def unicode_spaces_def)

lemma sampleLine_is_sample:
  "sampleLine \<noteq> []" "\<not> HasPrefix sampleLine ''# TYPE ''" "\<not> HasPrefix sampleLine ''#''"
  by (simp_all add: sampleLine_def HasPrefix_def)

lemma sampleLine_match:
  "FindStringSubmatch metricLineRegex sampleLine
     = [sampleLine, ''http_requests'', ''{method='' @ [CHR 0x22] @ ''GET'' @ [CHR 0x22] @ ''}'',
        ''1027'', ''1395066363000'']"
  by (simp add: FindStringSubmatch_def submatches_def metricLineRegex_def sampleLine_def
        class_eval)

lemma label_match:
  "FindAllStringSubmatch labelRegex (''method='' @ [CHR 0x22] @ ''GET'' @ [CHR 0x22])
     = [[''method='' @ [CHR 0x22] @ ''GET'' @ [CHR 0x22], ''method'', ''GET'']]"
  by (simp add: FindAllStringSubmatch_def submatches_def labelRegex_def class_eval)

lemma sample_labels:
  "line_labels t (''{method='' @ [CHR 0x22] @ ''GET'' @ [CHR 0x22] @ ''}'')
     = [''endpoint'' \<mapsto> t, ''method'' \<mapsto> ''GET'']"
proof -
  have "Trim (''{method='' @ [CHR 0x22] @ ''GET'' @ [CHR 0x22] @ ''}'') ''{}''
          = ''method='' @ [CHR 0x22] @ ''GET'' @ [CHR 0x22]"
    by (simp add: Trim_def)
  then show ?thesis
    using label_match by (simp add: line_labels_def add_label_def)
qed

lemma ParseFloat_1027: "ParseFloat other ''1027'' = Some (Finite 1027)"
  by (simp add: ParseFloat_def isDigit_def decimal_def)

lemma sample_type: "line_type [''http_requests'' \<mapsto> ''counter''] ''http_requests'' = ''counter''"
  by (simp add: line_type_def)

text \<open>One round of the scanner loop on a \<open>TYPE\<close> directive, and on a sample line.\<close>

lemma parse_lines_directive:
  assumes "TrimSpace l \<noteq> []" and "HasPrefix (TrimSpace l) ''# TYPE ''"
    and "Fields (TrimSpace l) = [hash, kw, metricName, metricType]"
  shows "parse_lines w t types (l # ls) = parse_lines w t (types(metricName \<mapsto> metricType)) ls"
  using assms by (simp add: Let_def del: fun_upd_apply)

lemma parse_lines_sample:
  assumes "TrimSpace l \<noteq> []" and "\<not> HasPrefix (TrimSpace l) ''# TYPE ''"
    and "\<not> HasPrefix (TrimSpace l) ''#''"
    and "FindStringSubmatch metricLineRegex (TrimSpace l) = [whole, metricName, labelsStr, valueStr, ts]"
    and "ParseFloat (parseFloatOther w) valueStr = Some v"
  shows "parse_lines w t types (l # ls)
           = \<lparr>Metric.Name = metricName, Metric.Labels = line_labels t labelsStr, Value = v,
               Type = line_type types metricName\<rparr>
             # parse_lines w t types ls"
  using assms by (simp add: Let_def del: fun_upd_apply)

text \<open>
  C5. For every target name \<open>t\<close>, the exposition text made of the line
  \<open># TYPE http_requests counter\<close> and the line
  \<open>http_requests{method="GET"} 1027 1395066363000\<close> parses to exactly one metric: name
  \<open>http_requests\<close>, type \<open>counter\<close>, value 1027, labels \<open>method = GET\<close> and
  \<open>endpoint = t\<close> and no other.
\<close>

theorem exposition_example_parses:
  "parsePrometheusMetrics w t expositionBody
     = [\<lparr>Metric.Name = ''http_requests'',
         Metric.Labels = [''endpoint'' \<mapsto> t, ''method'' \<mapsto> ''GET''],
         Value = Finite 1027,
         Type = ''counter''\<rparr>]"
proof -
  have first: "parse_lines w t Map.empty [typeLine, sampleLine]
                 = parse_lines w t [''http_requests'' \<mapsto> ''counter''] [sampleLine]"
    by (rule parse_lines_directive) (simp_all add: trim_typeLine typeLine_is_directive)
  have second: "parse_lines w t [''http_requests'' \<mapsto> ''counter''] [sampleLine]
     = \<lparr>Metric.Name = ''http_requests'',
         Metric.Labels = line_labels t (''{method='' @ [CHR 0x22] @ ''GET'' @ [CHR 0x22] @ ''}''),
         Value = Finite 1027,
         Type = line_type [''http_requests'' \<mapsto> ''counter''] ''http_requests''\<rparr>
       # parse_lines w t [''http_requests'' \<mapsto> ''counter''] []"
  proof (rule parse_lines_sample)
    show "TrimSpace sampleLine \<noteq> []"
      by (simp add: trim_sampleLine sampleLine_is_sample)
    show "\<not> HasPrefix (TrimSpace sampleLine) ''# TYPE ''"
      by (simp add: trim_sampleLine sampleLine_is_sample)
    show "\<not> HasPrefix (TrimSpace sampleLine) ''#''"
      by (simp add: trim_sampleLine sampleLine_is_sample)
    show "FindStringSubmatch metricLineRegex (TrimSpace sampleLine)
            = [sampleLine, ''http_requests'', ''{method='' @ [CHR 0x22] @ ''GET'' @ [CHR 0x22] @ ''}'',
               ''1027'', ''1395066363000'']"
      by (simp only: trim_sampleLine sampleLine_match)
    show "ParseFloat (parseFloatOther w) ''1027'' = Some (Finite 1027)"
      by (rule ParseFloat_1027)
  qed
  show ?thesis
    unfolding parsePrometheusMetrics_def scan_example first second sample_labels sample_type
    by simp
qed

end
